theory Spec2Isabelle
  imports Main "HOL-Library.Option_ord"
begin

section \<open>Data model (shared/schema.ts)\<close>

text \<open>
  Every table of the schema is a list of rows in insertion order. A column declared
  \<^verbatim>\<open>decimal(.., {precision: 10, scale: 2})\<close> holds a number with two decimals; what it
  holds is represented by its number of hundredths (\<open>24.99\<close> is \<open>2499\<close>), so sums and
  products with integer quantities are exact. A \<^verbatim>\<open>serial\<close> primary key is a natural
  number drawn from the table's sequence, a nullable column is an \<open>option\<close>, a
  \<^verbatim>\<open>json\<close> column is opaque text and a \<^verbatim>\<open>timestamp\<close> is a natural number of clock
  ticks.
\<close>

type_synonym money = int
type_synonym timestamp = nat
type_synonym json = string

text \<open>
  What is written into a decimal column is a string or a number turned into a string
  (\<^verbatim>\<open>z.union([z.string(), z.number()]).transform((val) => val.toString())\<close>): decimal
  text with any number of digits, \<open>Decimal m s\<close> for the number \<open>m / 10 ^ s\<close> (the text
  \<^verbatim>\<open>"24.995"\<close> is \<open>Decimal 24995 3\<close>), or text that is no number at all. The column
  rounds it to two decimals, halves away from zero, and refuses what is no number or
  does not fit its ten digits.
\<close>

datatype amount = Decimal int nat | Malformed

definition toHundredths :: "int \<Rightarrow> nat \<Rightarrow> int" where
  "toHundredths m s =
     (if s \<le> 2 then m * 10 ^ (2 - s)
      else (let d = 10 ^ (s - 2); q = (\<bar>m\<bar> + d div 2) div d in if m < 0 then - q else q))"

definition decimalColumn :: "amount \<Rightarrow> money option" where
  "decimalColumn a =
     (case a of
        Malformed \<Rightarrow> None
      | Decimal m s \<Rightarrow> (if \<bar>toHundredths m s\<bar> < 10 ^ 10 then Some (toHundredths m s) else None))"

text \<open>
  Quantities are JavaScript integers (\<open>int\<close>); an \<^verbatim>\<open>integer\<close> column holds 32 bits
  and refuses a value outside their range.
\<close>

definition integerColumn :: "int \<Rightarrow> bool" where
  "integerColumn q = (- 2147483648 \<le> q \<and> q \<le> 2147483647)"

text \<open>
  A storage method either returns or throws (its promise is rejected). A statement
  whose value the column's type refuses fails before a row is formed; a violated foreign
  key is found when the row, with its key drawn from the sequence, is there.
\<close>

datatype 'a outcome = Throws | Returns 'a

record product =
  p_id :: nat
  p_name :: string
  p_description :: string
  p_price :: money
  p_imageUrl :: string
  p_category :: string
  p_origin :: string
  p_roastLevel :: string
  p_inStock :: "bool option"
  p_createdAt :: "timestamp option"
  p_updatedAt :: "timestamp option"

record order =
  o_id :: nat
  o_userId :: "nat option"
  o_customerName :: string
  o_customerEmail :: string
  o_customerAddress :: string
  o_customerCity :: string
  o_customerZip :: string
  o_totalAmount :: money
  o_status :: string
  o_createdAt :: "timestamp option"
  o_updatedAt :: "timestamp option"

record order_item =
  oi_id :: nat
  oi_orderId :: "nat option"
  oi_productId :: "nat option"
  oi_quantity :: int
  oi_price :: money
  oi_customizations :: "json option"

record cart_item =
  ci_id :: nat
  ci_sessionId :: string
  ci_productId :: "nat option"
  ci_quantity :: int
  ci_customizations :: "json option"
  ci_createdAt :: "timestamp option"

text \<open>
  The insert types (\<^verbatim>\<open>InsertOrder\<close>, \<^verbatim>\<open>InsertOrderItem\<close>, \<^verbatim>\<open>InsertCartItem\<close>): the
  row without the columns the schemas omit; the total of an order and the price of an
  order item are what the client wrote. \<^verbatim>\<open>Partial<InsertProduct>\<close> makes every column
  of a product optional; \<open>inStock\<close> is nullable, so a patch can set it to null.
\<close>

record insert_order =
  io_userId :: "nat option"
  io_customerName :: string
  io_customerEmail :: string
  io_customerAddress :: string
  io_customerCity :: string
  io_customerZip :: string
  io_totalAmount :: amount
  io_status :: "string option"

record insert_order_item =
  ioi_orderId :: "nat option"
  ioi_productId :: "nat option"
  ioi_quantity :: int
  ioi_price :: amount
  ioi_customizations :: "json option"

record insert_cart_item =
  ici_sessionId :: string
  ici_productId :: "nat option"
  ici_quantity :: int
  ici_customizations :: "json option"

record product_patch =
  pp_name :: "string option"
  pp_description :: "string option"
  pp_price :: "money option"
  pp_imageUrl :: "string option"
  pp_category :: "string option"
  pp_origin :: "string option"
  pp_roastLevel :: "string option"
  pp_inStock :: "bool option option"

text \<open>
  The database: the five tables the cart and order code touches (of \<^verbatim>\<open>users\<close> only
  the primary keys, which \<^verbatim>\<open>orders.user_id\<close> references) and the sequences behind the
  serial keys of the tables the code inserts into.
\<close>

record db =
  products :: "product list"
  users :: "nat list"
  cartItems :: "cart_item list"
  orders :: "order list"
  orderItems :: "order_item list"
  cartItems_seq :: nat
  orders_seq :: nat
  orderItems_seq :: nat

text \<open>
  A foreign key (\<^verbatim>\<open>.references(() => t.id)\<close>) on a nullable column: null passes, any
  other value must be a key of the referenced table, or the insert is refused.
\<close>

definition references :: "nat option \<Rightarrow> nat list \<Rightarrow> bool" where
  "references fk keys = (case fk of None \<Rightarrow> True | Some k \<Rightarrow> k \<in> set keys)"

text \<open>
  \<^verbatim>\<open>a.leftJoin(b, on)\<close>: every row of \<open>a\<close> with each row of \<open>b\<close> that satisfies \<open>on\<close>,
  and with null when there is none.
\<close>

definition leftJoin :: "'a list \<Rightarrow> 'b list \<Rightarrow> ('a \<Rightarrow> 'b \<Rightarrow> bool) \<Rightarrow> ('a \<times> 'b option) list" where
  "leftJoin ls rs on =
     concat (map (\<lambda>l. case filter (on l) rs of
                         [] \<Rightarrow> [(l, None)]
                       | ms \<Rightarrow> map (\<lambda>r. (l, Some r)) ms) ls)"

section \<open>Catalog (DatabaseStorage, product operations)\<close>

definition getProduct :: "db \<Rightarrow> nat \<Rightarrow> product option" where
  "getProduct st i = find (\<lambda>p. p_id p = i) (products st)"

text \<open>
  \<^verbatim>\<open>update(products).set({ ...product, updatedAt: new Date() }).where(eq(products.id, id))\<close>:
  a key the patch does not carry leaves its column alone.
\<close>

definition applyPatch :: "product_patch \<Rightarrow> timestamp \<Rightarrow> product \<Rightarrow> product" where
  "applyPatch pt now p =
     p\<lparr> p_name := (case pp_name pt of None \<Rightarrow> p_name p | Some v \<Rightarrow> v),
        p_description := (case pp_description pt of None \<Rightarrow> p_description p | Some v \<Rightarrow> v),
        p_price := (case pp_price pt of None \<Rightarrow> p_price p | Some v \<Rightarrow> v),
        p_imageUrl := (case pp_imageUrl pt of None \<Rightarrow> p_imageUrl p | Some v \<Rightarrow> v),
        p_category := (case pp_category pt of None \<Rightarrow> p_category p | Some v \<Rightarrow> v),
        p_origin := (case pp_origin pt of None \<Rightarrow> p_origin p | Some v \<Rightarrow> v),
        p_roastLevel := (case pp_roastLevel pt of None \<Rightarrow> p_roastLevel p | Some v \<Rightarrow> v),
        p_inStock := (case pp_inStock pt of None \<Rightarrow> p_inStock p | Some v \<Rightarrow> v),
        p_updatedAt := Some now \<rparr>"

definition updateProduct :: "db \<Rightarrow> nat \<Rightarrow> product_patch \<Rightarrow> timestamp \<Rightarrow> db \<times> product option" where
  "updateProduct st i pt now =
     (let st' = st\<lparr>products := map (\<lambda>p. if p_id p = i then applyPatch pt now p else p) (products st)\<rparr>
      in (st', find (\<lambda>p. p_id p = i) (products st')))"

section \<open>Cart ledger (DatabaseStorage, cart operations)\<close>

text \<open>
  \<^verbatim>\<open>select().from(cartItems).leftJoin(products, eq(cartItems.productId, products.id))
  .where(eq(cartItems.sessionId, sessionId))\<close>. The \<^verbatim>\<open>row.products!\<close> of the mapping is
  a compile-time assertion only: at run time the joined product may be null.
\<close>

definition getCartItems :: "db \<Rightarrow> string \<Rightarrow> (cart_item \<times> product option) list" where
  "getCartItems st sessionId =
     filter (\<lambda>row. ci_sessionId (fst row) = sessionId)
       (leftJoin (cartItems st) (products st) (\<lambda>c p. ci_productId c = Some (p_id p)))"

text \<open>
  \<^verbatim>\<open>addToCart\<close>: the row of the same session and product, if there is one, gets the sum
  of its quantity and the new one; otherwise a row is inserted. In SQL a null
  \<open>productId\<close> equals nothing, so such an item never finds an existing row. The
  update throws, and changes nothing, when the sum is outside the range of the column;
  the insert throws when the quantity is, or when the product key is not in the catalog.
  What is returned is the first of the rows that the statement returns.
\<close>

definition sameCartLine :: "string \<Rightarrow> nat option \<Rightarrow> cart_item \<Rightarrow> bool" where
  "sameCartLine sessionId productId c =
     (ci_sessionId c = sessionId \<and> productId \<noteq> None \<and> ci_productId c = productId)"

definition addToCart :: "db \<Rightarrow> insert_cart_item \<Rightarrow> timestamp \<Rightarrow> db \<times> cart_item option outcome" where
  "addToCart st item now =
     (case filter (sameCartLine (ici_sessionId item) (ici_productId item)) (cartItems st) of
        existingItem # _ \<Rightarrow>
          (let st' = st\<lparr>cartItems :=
                 map (\<lambda>c. if ci_id c = ci_id existingItem
                           then c\<lparr>ci_quantity := ci_quantity existingItem + ici_quantity item\<rparr>
                           else c) (cartItems st)\<rparr>
           in if integerColumn (ci_quantity existingItem + ici_quantity item)
              then (st', Returns (find (\<lambda>c. ci_id c = ci_id existingItem) (cartItems st')))
              else (st, Throws))
      | [] \<Rightarrow>
          (let st1 = st\<lparr>cartItems_seq := Suc (cartItems_seq st)\<rparr>;
               newItem = \<lparr> ci_id = cartItems_seq st,
                           ci_sessionId = ici_sessionId item,
                           ci_productId = ici_productId item,
                           ci_quantity = ici_quantity item,
                           ci_customizations = ici_customizations item,
                           ci_createdAt = Some now \<rparr>
           in if \<not> integerColumn (ici_quantity item) then (st, Throws)
              else if references (ici_productId item) (map p_id (products st))
              then (st1\<lparr>cartItems := cartItems st @ [newItem]\<rparr>, Returns (Some newItem))
              else (st1, Throws)))"

text \<open>
  \<^verbatim>\<open>updateCartItem\<close>: a bare update by key. It returns the updated row, or nothing
  when no row has the key, and throws when the quantity is outside the range of the
  column.
\<close>

definition updateCartItem :: "db \<Rightarrow> nat \<Rightarrow> int \<Rightarrow> db \<times> cart_item option outcome" where
  "updateCartItem st i quantity =
     (let st' = st\<lparr>cartItems :=
            map (\<lambda>c. if ci_id c = i then c\<lparr>ci_quantity := quantity\<rparr> else c) (cartItems st)\<rparr>
      in if integerColumn quantity
         then (st', Returns (find (\<lambda>c. ci_id c = i) (cartItems st')))
         else (st, Throws))"

definition removeFromCart :: "db \<Rightarrow> nat \<Rightarrow> db" where
  "removeFromCart st i = st\<lparr>cartItems := filter (\<lambda>c. ci_id c \<noteq> i) (cartItems st)\<rparr>"

definition clearCart :: "db \<Rightarrow> string \<Rightarrow> db" where
  "clearCart st sessionId =
     st\<lparr>cartItems := filter (\<lambda>c. ci_sessionId c \<noteq> sessionId) (cartItems st)\<rparr>"

section \<open>Orders (DatabaseStorage, order operations)\<close>

text \<open>
  \<^verbatim>\<open>insert(orders).values(order).returning()\<close>: the key comes from the sequence,
  \<open>status\<close> defaults to \<^verbatim>\<open>"pending"\<close>, both timestamps default to now, and the total
  is stored as the column rounds it. The insert throws when the column refuses the
  total or when \<open>userId\<close> is not a key of \<^verbatim>\<open>users\<close>.
\<close>

definition createOrder :: "db \<Rightarrow> insert_order \<Rightarrow> timestamp \<Rightarrow> db \<times> order outcome" where
  "createOrder st order now =
     (case decimalColumn (io_totalAmount order) of
        None \<Rightarrow> (st, Throws)
      | Some totalAmount \<Rightarrow>
          (let st1 = st\<lparr>orders_seq := Suc (orders_seq st)\<rparr>;
               newOrder = \<lparr> o_id = orders_seq st,
                            o_userId = io_userId order,
                            o_customerName = io_customerName order,
                            o_customerEmail = io_customerEmail order,
                            o_customerAddress = io_customerAddress order,
                            o_customerCity = io_customerCity order,
                            o_customerZip = io_customerZip order,
                            o_totalAmount = totalAmount,
                            o_status = (case io_status order of None \<Rightarrow> ''pending'' | Some s \<Rightarrow> s),
                            o_createdAt = Some now,
                            o_updatedAt = Some now \<rparr>
           in if references (io_userId order) (users st)
              then (st1\<lparr>orders := orders st @ [newOrder]\<rparr>, Returns newOrder)
              else (st1, Throws)))"

text \<open>
  \<^verbatim>\<open>insert(orderItems).values(orderItem).returning()\<close>: the price is stored as the
  column rounds it. The insert throws when the quantity is outside the range of its
  column, when the column refuses the price, or when \<open>orderId\<close> is not a key of
  \<^verbatim>\<open>orders\<close> or \<open>productId\<close> not a key of \<^verbatim>\<open>products\<close>.
\<close>

definition createOrderItem :: "db \<Rightarrow> insert_order_item \<Rightarrow> db \<times> order_item outcome" where
  "createOrderItem st orderItem =
     (if \<not> integerColumn (ioi_quantity orderItem) then (st, Throws)
      else
        (case decimalColumn (ioi_price orderItem) of
           None \<Rightarrow> (st, Throws)
         | Some price \<Rightarrow>
             (let st1 = st\<lparr>orderItems_seq := Suc (orderItems_seq st)\<rparr>;
                  newOrderItem = \<lparr> oi_id = orderItems_seq st,
                                   oi_orderId = ioi_orderId orderItem,
                                   oi_productId = ioi_productId orderItem,
                                   oi_quantity = ioi_quantity orderItem,
                                   oi_price = price,
                                   oi_customizations = ioi_customizations orderItem \<rparr>
              in if references (ioi_orderId orderItem) (map o_id (orders st))
                    \<and> references (ioi_productId orderItem) (map p_id (products st))
                 then (st1\<lparr>orderItems := orderItems st @ [newOrderItem]\<rparr>, Returns newOrderItem)
                 else (st1, Throws))))"

text \<open>
  The rows of \<^verbatim>\<open>orders LEFT JOIN order_items ON orders.id = order_items.order_id
  LEFT JOIN products ON order_items.product_id = products.id\<close>.
\<close>

type_synonym order_row = "(order \<times> order_item option) \<times> product option"
type_synonym order_with_items = "order \<times> (order_item \<times> product) list"

definition orderRows :: "db \<Rightarrow> order_row list" where
  "orderRows st =
     leftJoin
       (leftJoin (orders st) (orderItems st) (\<lambda>order i. oi_orderId i = Some (o_id order)))
       (products st)
       (\<lambda>row p. case snd row of None \<Rightarrow> False | Some i \<Rightarrow> oi_productId i = Some (p_id p))"

text \<open>
  Both read paths keep a row's item only under \<^verbatim>\<open>orderItem && product\<close>
  (\<^verbatim>\<open>row.order_items && row.products\<close> in \<open>getOrder\<close>).
\<close>

definition itemOfRow :: "order_row \<Rightarrow> (order_item \<times> product) list" where
  "itemOfRow row =
     (case snd (fst row) of
        None \<Rightarrow> []
      | Some orderItem \<Rightarrow> (case snd row of None \<Rightarrow> [] | Some product \<Rightarrow> [(orderItem, product)]))"

definition getOrder :: "db \<Rightarrow> nat \<Rightarrow> order_with_items option" where
  "getOrder st i =
     (let result = filter (\<lambda>row. o_id (fst (fst row)) = i) (orderRows st)
      in case result of
           [] \<Rightarrow> None
         | row # _ \<Rightarrow> Some (fst (fst row), concat (map itemOfRow result)))"

text \<open>
  \<open>getOrders\<close> sorts the rows by \<^verbatim>\<open>desc(orders.createdAt)\<close> (nulls first; rows with
  the same timestamp, whose order the database leaves open, keep theirs) and groups
  them in a \<^verbatim>\<open>Map\<close> keyed by order id, which keeps the keys in the order of their first
  insertion: an association list.
\<close>

definition pushItem :: "nat \<Rightarrow> order_item \<times> product \<Rightarrow> (nat \<times> order_with_items) list
    \<Rightarrow> (nat \<times> order_with_items) list" where
  "pushItem k x m =
     map (\<lambda>e. if fst e = k then (fst e, (fst (snd e), snd (snd e) @ [x])) else e) m"

fun groupRows :: "order_row list \<Rightarrow> (nat \<times> order_with_items) list
    \<Rightarrow> (nat \<times> order_with_items) list" where
  "groupRows [] ordersMap = ordersMap"
| "groupRows (row # rows) ordersMap =
     (let order = fst (fst row);
          m1 = (if o_id order \<in> fst ` set ordersMap then ordersMap
                else ordersMap @ [(o_id order, (order, []))]);
          m2 = (case itemOfRow row of [] \<Rightarrow> m1 | x # _ \<Rightarrow> pushItem (o_id order) x m1)
      in groupRows rows m2)"

definition descCreatedAt :: "order_row \<Rightarrow> int option" where
  "descCreatedAt row = map_option (\<lambda>t. - int t) (o_createdAt (fst (fst row)))"

definition getOrders :: "db \<Rightarrow> order_with_items list" where
  "getOrders st = map snd (groupRows (sort_key descCreatedAt (orderRows st)) [])"

section \<open>Placing an order (routes, POST /api/orders)\<close>

text \<open>
  The request body: what the client sends. A required field that is missing or of the
  wrong type is \<open>None\<close> (a quantity is there when it is an integer); \<open>userId\<close>,
  \<open>status\<close>, \<open>productId\<close> and \<open>customizations\<close> are optional in the schemas, \<open>None\<close>
  when the body does not have them, and of the right type when it does. \<open>totalAmount\<close> and each line's \<open>price\<close> are fields
  of the body: any string or number passes the schemas
  (\<^verbatim>\<open>z.union([z.string(), z.number()])\<close>), and it is the column that rounds or refuses
  it. The handler inserts the header from the body as it came
  (\<^verbatim>\<open>const { orderItems, ...orderInfo } = req.body\<close>); the bodies modelled carry the columns
  of \<^verbatim>\<open>InsertOrder\<close> and no key or timestamp of their own.
\<close>

record order_item_body =
  oib_productId :: "nat option"
  oib_quantity :: "int option"
  oib_price :: "amount option"
  oib_customizations :: "json option"

record order_body =
  ob_userId :: "nat option"
  ob_customerName :: "string option"
  ob_customerEmail :: "string option"
  ob_customerAddress :: "string option"
  ob_customerCity :: "string option"
  ob_customerZip :: "string option"
  ob_totalAmount :: "amount option"
  ob_status :: "string option"
  ob_orderItems :: "order_item_body list option"

text \<open>
  The route's \<^verbatim>\<open>catch\<close>: a \<^verbatim>\<open>ZodError\<close> answers 400 ("Invalid order data"), anything else
  thrown answers 500 ("Failed to create order"); success answers 201 with the order.
\<close>

datatype failure = ZodError | ServerError


definition insertOrderSchema_parse :: "order_body \<Rightarrow> insert_order option" where
  "insertOrderSchema_parse body =
     (case (ob_customerName body, ob_customerEmail body, ob_customerAddress body,
            ob_customerCity body, ob_customerZip body, ob_totalAmount body) of
        (Some name, Some email, Some address, Some city, Some zipCode, Some totalAmount) \<Rightarrow>
          Some \<lparr> io_userId = ob_userId body,
                 io_customerName = name,
                 io_customerEmail = email,
                 io_customerAddress = address,
                 io_customerCity = city,
                 io_customerZip = zipCode,
                 io_totalAmount = totalAmount,
                 io_status = ob_status body \<rparr>
      | _ \<Rightarrow> None)"

definition insertOrderItemSchema_parse :: "order_item_body \<Rightarrow> nat \<Rightarrow> insert_order_item option" where
  "insertOrderItemSchema_parse item orderId =
     (case (oib_quantity item, oib_price item) of
        (Some quantity, Some price) \<Rightarrow>
          Some \<lparr> ioi_orderId = Some orderId,
                 ioi_productId = oib_productId item,
                 ioi_quantity = quantity,
                 ioi_price = price,
                 ioi_customizations = oib_customizations item \<rparr>
      | _ \<Rightarrow> None)"

text \<open>
  The loop \<^verbatim>\<open>for (const item of orderItems)\<close>: each line is parsed, then inserted; the
  first line that fails to parse or to insert throws and ends the loop, the lines
  before it stay written.
\<close>

fun createOrderItems :: "db \<Rightarrow> nat \<Rightarrow> order_item_body list \<Rightarrow> db \<times> failure option" where
  "createOrderItems st orderId [] = (st, None)"
| "createOrderItems st orderId (item # items) =
     (case insertOrderItemSchema_parse item orderId of
        None \<Rightarrow> (st, Some ZodError)
      | Some orderItemData \<Rightarrow>
          (case createOrderItem st orderItemData of
             (st', Throws) \<Rightarrow> (st', Some ServerError)
           | (st', Returns _) \<Rightarrow> createOrderItems st' orderId items))"

text \<open>
  The handler. The order is created from the body's own fields once the body has passed
  \<^verbatim>\<open>insertOrderSchema.parse\<close>; a body without an \<open>orderItems\<close> array makes the loop throw
  a \<^verbatim>\<open>TypeError\<close> after the header is written. The cart of the session is cleared after
  the loop has ended normally.
\<close>

definition placeOrder :: "db \<Rightarrow> string \<Rightarrow> order_body \<Rightarrow> timestamp \<Rightarrow> db \<times> (failure + order)" where
  "placeOrder st sessionId body now =
     (case insertOrderSchema_parse body of
        None \<Rightarrow> (st, Inl ZodError)
      | Some orderInfo \<Rightarrow>
          (case createOrder st orderInfo now of
             (st1, Throws) \<Rightarrow> (st1, Inl ServerError)
           | (st1, Returns order) \<Rightarrow>
               (case ob_orderItems body of
                  None \<Rightarrow> (st1, Inl ServerError)
                | Some items \<Rightarrow>
                    (case createOrderItems st1 (o_id order) items of
                       (st2, Some e) \<Rightarrow> (st2, Inl e)
                     | (st2, None) \<Rightarrow> (clearCart st2 sessionId, Inr order)))))"


section \<open>Notions used to state the properties\<close>

text \<open>A sequence of \<open>addToCart\<close> calls, each with its item and its clock reading; the
  results of the calls are collected in order.\<close>

fun addAll :: "db \<Rightarrow> (insert_cart_item \<times> timestamp) list
    \<Rightarrow> db \<times> cart_item option outcome list" where
  "addAll st [] = (st, [])"
| "addAll st (call # calls) =
     (case addToCart st (fst call) (snd call) of
        (st', r) \<Rightarrow> (case addAll st' calls of (st'', rs) \<Rightarrow> (st'', r # rs)))"

text \<open>The running sums of the quantities of a sequence of calls: what the quantity of
  the merged row is to be after each call.\<close>

fun runningSums :: "int \<Rightarrow> int list \<Rightarrow> int list" where
  "runningSums acc [] = []"
| "runningSums acc (q # qs) = (acc + q) # runningSums (acc + q) qs"

text \<open>An order item records a submitted line under an order: it carries the order's
  key, the line's product, quantity and customizations, and the line's price as the
  column rounds it.\<close>

definition writtenFrom :: "nat \<Rightarrow> order_item_body \<Rightarrow> order_item \<Rightarrow> bool" where
  "writtenFrom orderId item row =
     (oi_orderId row = Some orderId \<and> oi_productId row = oib_productId item
      \<and> Some (oi_quantity row) = oib_quantity item
      \<and> (case oib_price item of None \<Rightarrow> False | Some price \<Rightarrow> decimalColumn price = Some (oi_price row))
      \<and> oi_customizations row = oib_customizations item)"

text \<open>
  What the handler needs of a body to write its header, and of a line to write its
  item: the header's required fields are there, the column takes the total, and the
  user key, if any, is a key of \<^verbatim>\<open>users\<close>; the line has a quantity within the range of
  its column and a price that the column takes, and its product key, if any, is a key
  of the catalog.
\<close>

definition headerAccepted :: "db \<Rightarrow> order_body \<Rightarrow> bool" where
  "headerAccepted st body =
     (case insertOrderSchema_parse body of
        None \<Rightarrow> False
      | Some orderInfo \<Rightarrow>
          decimalColumn (io_totalAmount orderInfo) \<noteq> None \<and> references (io_userId orderInfo) (users st))"

definition lineAccepted :: "db \<Rightarrow> order_item_body \<Rightarrow> bool" where
  "lineAccepted st item =
     ((case oib_quantity item of None \<Rightarrow> False | Some quantity \<Rightarrow> integerColumn quantity)
      \<and> (case oib_price item of None \<Rightarrow> False | Some price \<Rightarrow> decimalColumn price \<noteq> None)
      \<and> references (oib_productId item) (map p_id (products st)))"

text \<open>The lines of a body, none when it has no \<open>orderItems\<close>.\<close>

definition linesOf :: "order_body \<Rightarrow> order_item_body list" where
  "linesOf body = (case ob_orderItems body of None \<Rightarrow> [] | Some items \<Rightarrow> items)"

text \<open>The sum of price times quantity over order items, the items of one order, and
  the same sum over the lines of a request body, each price as the column rounds it (a
  line without quantity or with a price that the column refuses, which the handler
  rejects, counts as zero).\<close>

definition itemsTotal :: "order_item list \<Rightarrow> money" where
  "itemsTotal rows = sum_list (map (\<lambda>i. oi_price i * oi_quantity i) rows)"

definition orderItemsOf :: "db \<Rightarrow> nat \<Rightarrow> order_item list" where
  "orderItemsOf st orderId = filter (\<lambda>i. oi_orderId i = Some orderId) (orderItems st)"

definition lineAmount :: "order_item_body \<Rightarrow> money" where
  "lineAmount item =
     (case oib_price item of
        None \<Rightarrow> 0
      | Some price \<Rightarrow>
          (case decimalColumn price of
             None \<Rightarrow> 0
           | Some stored \<Rightarrow> (case oib_quantity item of None \<Rightarrow> 0 | Some quantity \<Rightarrow> stored * quantity)))"

definition linesTotal :: "order_item_body list \<Rightarrow> money" where
  "linesTotal items = sum_list (map lineAmount items)"

text \<open>
  The total as the specification words it (section 4.2, step 3): the sum over the
  submitted lines of the catalog's current price of the product times the quantity,
  undefined when a line names no product of the catalog or no quantity. In hundredths
  the sum is exact, so the final rounding to two decimals changes nothing.
\<close>

definition spec_lineAmount :: "db \<Rightarrow> order_item_body \<Rightarrow> money option" where
  "spec_lineAmount st item =
     (case oib_productId item of
        None \<Rightarrow> None
      | Some k \<Rightarrow>
          (case getProduct st k of
             None \<Rightarrow> None
           | Some p \<Rightarrow>
               (case oib_quantity item of None \<Rightarrow> None | Some quantity \<Rightarrow> Some (p_price p * quantity))))"

fun spec_totalAmount :: "db \<Rightarrow> order_item_body list \<Rightarrow> money option" where
  "spec_totalAmount st [] = Some 0"
| "spec_totalAmount st (item # items) =
     (case spec_lineAmount st item of
        None \<Rightarrow> None
      | Some a \<Rightarrow> map_option (\<lambda>t. a + t) (spec_totalAmount st items))"

text \<open>The items of order \<open>i\<close> that an order read returns: each order item of the order
  paired with every product of the catalog that carries its product key.\<close>

definition joinedItems :: "db \<Rightarrow> nat \<Rightarrow> (order_item \<times> product) list" where
  "joinedItems st i =
     concat (map (\<lambda>item. map (\<lambda>p. (item, p))
                          (filter (\<lambda>p. oi_productId item = Some (p_id p)) (products st)))
                 (orderItemsOf st i))"

text \<open>The keys of the orders table are unique and below its sequence, and so is every
  order key that an order item carries: what a serial key and the foreign key of
  \<^verbatim>\<open>order_items.order_id\<close> give in every state the handlers reach from an empty shop.\<close>

definition keysBelowSeq :: "db \<Rightarrow> bool" where
  "keysBelowSeq st =
     ((\<forall>order \<in> set (orders st). o_id order < orders_seq st)
      \<and> distinct (map o_id (orders st))
      \<and> (\<forall>i \<in> set (orderItems st). \<forall>k. oi_orderId i = Some k \<longrightarrow> k < orders_seq st))"

text \<open>What an order read shows of the order itself: the header and its order items,
  without the product joined to each item.\<close>

definition orderView :: "order_with_items \<Rightarrow> order \<times> order_item list" where
  "orderView r = (fst r, map fst (snd r))"

section \<open>Example data\<close>

text \<open>Two products of the seed data; the second one is marked out of stock here.\<close>

definition sidamo :: product where
  "sidamo = \<lparr> p_id = 1, p_name = ''Ethiopian Sidamo'', p_description = ''A bright, floral coffee'',
     p_price = 2499, p_imageUrl = ''sidamo.jpg'', p_category = ''Single Origin'',
     p_origin = ''Ethiopia'', p_roastLevel = ''Light Roast'', p_inStock = Some True,
     p_createdAt = Some 0, p_updatedAt = Some 0 \<rparr>"

definition supremo :: product where
  "supremo = \<lparr> p_id = 2, p_name = ''Colombian Supremo'', p_description = ''Rich, full-bodied coffee'',
     p_price = 2299, p_imageUrl = ''supremo.jpg'', p_category = ''Single Origin'',
     p_origin = ''Colombia'', p_roastLevel = ''Medium Roast'', p_inStock = Some False,
     p_createdAt = Some 0, p_updatedAt = Some 0 \<rparr>"

definition shop :: db where
  "shop = \<lparr> products = [sidamo, supremo], users = [], cartItems = [], orders = [],
     orderItems = [], cartItems_seq = 1, orders_seq = 1, orderItems_seq = 1 \<rparr>"

definition addSidamo :: "int \<Rightarrow> insert_cart_item" where
  "addSidamo q = \<lparr> ici_sessionId = ''s1'', ici_productId = Some 1, ici_quantity = q,
     ici_customizations = None \<rparr>"

definition twoAdds :: "(insert_cart_item \<times> timestamp) list" where
  "twoAdds = [(addSidamo 2, 5), (addSidamo 1, 6)]"

text \<open>Two calls whose quantities sum to one more than a 32-bit integer holds.\<close>

definition bigAdds :: "(insert_cart_item \<times> timestamp) list" where
  "bigAdds = [(addSidamo 2147483647, 5), (addSidamo 1, 6)]"

text \<open>The shop after session s1 has put three Sidamo and session s2 one Supremo into
  their carts.\<close>

definition cartS1 :: cart_item where
  "cartS1 = \<lparr> ci_id = 1, ci_sessionId = ''s1'', ci_productId = Some 1, ci_quantity = 3,
     ci_customizations = None, ci_createdAt = Some 5 \<rparr>"

definition cartS2 :: cart_item where
  "cartS2 = \<lparr> ci_id = 2, ci_sessionId = ''s2'', ci_productId = Some 2, ci_quantity = 1,
     ci_customizations = None, ci_createdAt = Some 6 \<rparr>"

definition busyShop :: db where
  "busyShop = \<lparr> products = [sidamo, supremo], users = [], cartItems = [cartS1, cartS2],
     orders = [], orderItems = [], cartItems_seq = 3, orders_seq = 1, orderItems_seq = 1 \<rparr>"

definition lineOf :: "nat option \<Rightarrow> int option \<Rightarrow> amount option \<Rightarrow> order_item_body" where
  "lineOf productId quantity price = \<lparr> oib_productId = productId, oib_quantity = quantity,
     oib_price = price, oib_customizations = None \<rparr>"

definition checkout :: "amount \<Rightarrow> order_item_body list \<Rightarrow> order_body" where
  "checkout totalAmount items = \<lparr> ob_userId = None, ob_customerName = Some ''Ada'',
     ob_customerEmail = Some ''ada@example.org'', ob_customerAddress = Some ''1 Main St'',
     ob_customerCity = Some ''Springfield'', ob_customerZip = Some ''12345'',
     ob_totalAmount = Some totalAmount, ob_status = None, ob_orderItems = Some items \<rparr>"

text \<open>Request bodies: the checkout of the scenario (three Sidamo at 24.99, total 74.97);
  the same with a third decimal in the price and the total (24.985 and 74.965); one of
  two items at 0.125 with total 0.25; one with prices of the client's own; one whose
  total is not the sum of its lines; one whose second line lacks its quantity; one for
  the product that is out of stock; one for a product key that the catalog does not
  have.\<close>

definition scenarioBody :: order_body where
  "scenarioBody = checkout (Decimal 7497 2) [lineOf (Some 1) (Some 3) (Some (Decimal 2499 2))]"

definition roundedBody :: order_body where
  "roundedBody = checkout (Decimal 74965 3) [lineOf (Some 1) (Some 3) (Some (Decimal 24985 3))]"

definition halfCentBody :: order_body where
  "halfCentBody = checkout (Decimal 25 2) [lineOf (Some 1) (Some 2) (Some (Decimal 125 3))]"

definition tamperedBody :: order_body where
  "tamperedBody = checkout (Decimal 1 2) [lineOf (Some 1) (Some 3) (Some (Decimal 1 2))]"

definition mismatchedBody :: order_body where
  "mismatchedBody = checkout (Decimal 10000 2) [lineOf (Some 1) (Some 3) (Some (Decimal 2499 2))]"

definition brokenBody :: order_body where
  "brokenBody = checkout (Decimal 9796 2)
     [lineOf (Some 1) (Some 3) (Some (Decimal 2499 2)), lineOf (Some 2) None (Some (Decimal 2299 2))]"

definition unavailableBody :: order_body where
  "unavailableBody = checkout (Decimal 2299 2) [lineOf (Some 2) (Some 1) (Some (Decimal 2299 2))]"

definition unknownBody :: order_body where
  "unknownBody = checkout (Decimal 500 2) [lineOf (Some 9) (Some 1) (Some (Decimal 500 2))]"

text \<open>The header that a checkout of Ada's at time 7 writes in \<open>busyShop\<close>, and the item
  written for a line.\<close>

definition headerOf :: "money \<Rightarrow> order" where
  "headerOf totalAmount = \<lparr> o_id = 1, o_userId = None, o_customerName = ''Ada'',
     o_customerEmail = ''ada@example.org'', o_customerAddress = ''1 Main St'',
     o_customerCity = ''Springfield'', o_customerZip = ''12345'', o_totalAmount = totalAmount,
     o_status = ''pending'', o_createdAt = Some 7, o_updatedAt = Some 7 \<rparr>"

definition itemRow :: "nat \<Rightarrow> nat option \<Rightarrow> int \<Rightarrow> money \<Rightarrow> order_item" where
  "itemRow i productId quantity price = \<lparr> oi_id = i, oi_orderId = Some 1, oi_productId = productId,
     oi_quantity = quantity, oi_price = price, oi_customizations = None \<rparr>"

text \<open>A database in which order 1 has three items: one of a product of the catalog,
  one whose product key 2 is no longer in the catalog, one without a product key.\<close>

definition archive :: db where
  "archive = \<lparr> products = [sidamo], users = [], cartItems = [],
     orders = [headerOf 7497],
     orderItems = [itemRow 1 (Some 1) 1 2499, itemRow 2 (Some 2) 2 2299, itemRow 3 None 1 400],
     cartItems_seq = 1, orders_seq = 2, orderItems_seq = 4 \<rparr>"

text \<open>The shop after the checkout of the scenario, and a patch that raises a price.\<close>

definition soldShop :: db where
  "soldShop = \<lparr> products = [sidamo, supremo], users = [], cartItems = [cartS2],
     orders = [headerOf 7497], orderItems = [itemRow 1 (Some 1) 3 2499],
     cartItems_seq = 3, orders_seq = 2, orderItems_seq = 2 \<rparr>"

definition priceRise :: product_patch where
  "priceRise = \<lparr> pp_name = None, pp_description = None, pp_price = Some 2999, pp_imageUrl = None,
     pp_category = None, pp_origin = None, pp_roastLevel = None, pp_inStock = None \<rparr>"

section \<open>Lemmas on lists\<close>

lemma filter_map_same:
  assumes "\<And>x. P (f x) = P x"
  shows "filter P (map f xs) = map f (filter P xs)"
  using assms by (induction xs) auto

lemma find_map_update:
  assumes "\<And>c. key (g c) = key c"
  shows "find (\<lambda>c. key c = i) (map (\<lambda>c. if key c = i then g c else c) xs)
           = map_option g (find (\<lambda>c. key c = i) xs)"
  using assms by (induction xs) auto

section \<open>The cart ledger\<close>

lemma sameCartLine_quantity [simp]:
  "sameCartLine s p (c\<lparr>ci_quantity := q\<rparr>) = sameCartLine s p c"
  by (simp add: sameCartLine_def)

lemma addToCart_existing:
  assumes "filter (sameCartLine (ici_sessionId item) (ici_productId item)) (cartItems st) = [row]"
    and "integerColumn (ci_quantity row + ici_quantity item)"
  shows "filter (sameCartLine (ici_sessionId item) (ici_productId item)) (cartItems (fst (addToCart st item now)))
           = [row\<lparr>ci_quantity := ci_quantity row + ici_quantity item\<rparr>]"
    and "length (cartItems (fst (addToCart st item now))) = length (cartItems st)"
    and "products (fst (addToCart st item now)) = products st"
    and "\<exists>r. snd (addToCart st item now) = Returns (Some r)"
proof -
  let ?f = "\<lambda>c. if ci_id c = ci_id row
                 then c\<lparr>ci_quantity := ci_quantity row + ici_quantity item\<rparr> else c"
  have st': "addToCart st item now =
     (st\<lparr>cartItems := map ?f (cartItems st)\<rparr>,
      Returns (find (\<lambda>c. ci_id c = ci_id row) (map ?f (cartItems st))))"
    using assms by (simp add: addToCart_def Let_def)
  have "filter (sameCartLine (ici_sessionId item) (ici_productId item)) (map ?f (cartItems st))
          = map ?f (filter (sameCartLine (ici_sessionId item) (ici_productId item)) (cartItems st))"
    by (rule filter_map_same) simp
  then show "filter (sameCartLine (ici_sessionId item) (ici_productId item)) (cartItems (fst (addToCart st item now)))
           = [row\<lparr>ci_quantity := ci_quantity row + ici_quantity item\<rparr>]"
    using assms(1) st' by simp
  show "length (cartItems (fst (addToCart st item now))) = length (cartItems st)"
    using st' by simp
  show "products (fst (addToCart st item now)) = products st"
    using st' by simp
  have "row \<in> set (filter (sameCartLine (ici_sessionId item) (ici_productId item)) (cartItems st))"
    using assms(1) by simp
  then have "row \<in> set (cartItems st)" by simp
  then have "find (\<lambda>c. ci_id c = ci_id row) (cartItems st) \<noteq> None"
    by (auto simp: find_None_iff)
  then obtain c where "find (\<lambda>c. ci_id c = ci_id row) (cartItems st) = Some c"
    by (cases "find (\<lambda>c. ci_id c = ci_id row) (cartItems st)") auto
  moreover have "find (\<lambda>c. ci_id c = ci_id row) (map ?f (cartItems st))
      = map_option (\<lambda>c. c\<lparr>ci_quantity := ci_quantity row + ici_quantity item\<rparr>)
          (find (\<lambda>c. ci_id c = ci_id row) (cartItems st))"
    by (rule find_map_update) simp
  ultimately show "\<exists>r. snd (addToCart st item now) = Returns (Some r)"
    using st' by simp
qed

lemma addToCart_existing_throws:
  assumes "filter (sameCartLine (ici_sessionId item) (ici_productId item)) (cartItems st) = [row]"
    and "\<not> integerColumn (ci_quantity row + ici_quantity item)"
  shows "addToCart st item now = (st, Throws)"
  using assms by (simp add: addToCart_def Let_def)

lemma addToCart_new:
  assumes "filter (sameCartLine (ici_sessionId item) (ici_productId item)) (cartItems st) = []"
    and "ici_productId item = Some p" and "p \<in> p_id ` set (products st)"
    and "integerColumn (ici_quantity item)"
  shows "\<exists>row. filter (sameCartLine (ici_sessionId item) (ici_productId item)) (cartItems (fst (addToCart st item now))) = [row]
            \<and> ci_quantity row = ici_quantity item \<and> ci_id row = cartItems_seq st
            \<and> snd (addToCart st item now) = Returns (Some row)
            \<and> cartItems (fst (addToCart st item now)) = cartItems st @ [row]"
    and "products (fst (addToCart st item now)) = products st"
  using assms by (simp_all add: addToCart_def Let_def references_def sameCartLine_def)

lemma addAll_existing:
  assumes "\<forall>call \<in> set calls. ici_sessionId (fst call) = s \<and> ici_productId (fst call) = Some p"
    and "filter (sameCartLine s (Some p)) (cartItems st) = [row]"
    and "\<forall>t \<in> set (runningSums (ci_quantity row) (map (\<lambda>call. ici_quantity (fst call)) calls)).
           integerColumn t"
  shows "filter (sameCartLine s (Some p)) (cartItems (fst (addAll st calls)))
           = [row\<lparr>ci_quantity := ci_quantity row + sum_list (map (\<lambda>call. ici_quantity (fst call)) calls)\<rparr>]
         \<and> length (cartItems (fst (addAll st calls))) = length (cartItems st)
         \<and> Throws \<notin> set (snd (addAll st calls))
         \<and> Returns None \<notin> set (snd (addAll st calls))"
  using assms
proof (induction calls arbitrary: st row)
  case Nil
  then show ?case by simp
next
  case (Cons call calls)
  obtain st' r where step: "addToCart st (fst call) (snd call) = (st', r)"
    by (cases "addToCart st (fst call) (snd call)")
  have key: "ici_sessionId (fst call) = s" "ici_productId (fst call) = Some p"
    using Cons.prems(1) by simp_all
  have ex: "filter (sameCartLine (ici_sessionId (fst call)) (ici_productId (fst call))) (cartItems st) = [row]"
    using Cons.prems(2) key by simp
  have range: "integerColumn (ci_quantity row + ici_quantity (fst call))"
    using Cons.prems(3) by simp
  let ?row' = "row\<lparr>ci_quantity := ci_quantity row + ici_quantity (fst call)\<rparr>"
  have one: "filter (sameCartLine s (Some p)) (cartItems st') = [?row']"
    using addToCart_existing(1)[OF ex range, of "snd call"] step key by simp
  have len: "length (cartItems st') = length (cartItems st)"
    using addToCart_existing(2)[OF ex range, of "snd call"] step by simp
  have res: "\<exists>c. r = Returns (Some c)"
    using addToCart_existing(4)[OF ex range, of "snd call"] step by simp
  have rest: "\<forall>call \<in> set calls. ici_sessionId (fst call) = s \<and> ici_productId (fst call) = Some p"
    using Cons.prems(1) by simp
  have sums: "\<forall>t \<in> set (runningSums (ci_quantity ?row') (map (\<lambda>call. ici_quantity (fst call)) calls)).
           integerColumn t"
    using Cons.prems(3) by simp
  note IH = Cons.IH[OF rest one sums]
  obtain st'' rs where tail: "addAll st' calls = (st'', rs)"
    by (cases "addAll st' calls")
  show ?case
    using IH step tail len res by (auto simp add: add.assoc)
qed

text \<open>
  Claim C4 says that any sequence of \<open>addToCart\<close> calls for one session and product
  leaves the sum of the quantities in one row. It does not when the sum leaves the
  range of the 32-bit \<open>quantity\<close> column: after a call with 2147483647 the call with 1
  throws, and the row keeps 2147483647, where the sum is 2147483648.
\<close>

theorem addToCart_overflow_counterexample:
  "bigAdds = [(addSidamo 2147483647, 5), (addSidamo 1, 6)]
   \<and> ici_sessionId (addSidamo 2147483647) = ici_sessionId (addSidamo 1)
   \<and> ici_productId (addSidamo 2147483647) = ici_productId (addSidamo 1)
   \<and> hd (tl (snd (addAll shop bigAdds))) = Throws
   \<and> map ci_quantity (cartItems (fst (addAll shop bigAdds))) = [2147483647]
   \<and> ici_quantity (addSidamo 2147483647) + ici_quantity (addSidamo 1) = 2147483648"
  by (simp add: bigAdds_def addSidamo_def shop_def sidamo_def supremo_def addToCart_def
      sameCartLine_def references_def integerColumn_def Let_def)

text \<open>
  Claim C4, amended. Take any non-empty sequence of \<open>addToCart\<close> calls that all carry the
  same session \<open>s\<close> and the same product \<open>p\<close> of the catalog, run from a database that
  has no cart row for that pair, and let every running sum of their quantities be within
  the range of the 32-bit \<open>quantity\<close> column. Afterwards exactly one cart row exists for
  the pair, its quantity is the sum of the quantities of the calls, it is the row the
  first call created (its key is the value the sequence had at the start), the table
  has grown by that one row only, so no later call created a duplicate, and every call
  returned a row.
\<close>

theorem addToCart_merge:
  assumes "calls \<noteq> []"
    and "\<forall>call \<in> set calls. ici_sessionId (fst call) = s \<and> ici_productId (fst call) = Some p"
    and "p \<in> p_id ` set (products st)"
    and "filter (sameCartLine s (Some p)) (cartItems st) = []"
    and "\<forall>t \<in> set (runningSums 0 (map (\<lambda>call. ici_quantity (fst call)) calls)). integerColumn t"
  shows "\<exists>row. filter (sameCartLine s (Some p)) (cartItems (fst (addAll st calls))) = [row]
           \<and> ci_quantity row = sum_list (map (\<lambda>call. ici_quantity (fst call)) calls)
           \<and> ci_id row = cartItems_seq st
           \<and> length (cartItems (fst (addAll st calls))) = Suc (length (cartItems st))
           \<and> Throws \<notin> set (snd (addAll st calls))
           \<and> Returns None \<notin> set (snd (addAll st calls))"
proof -
  obtain call rest where calls: "calls = call # rest"
    using assms(1) by (cases calls) auto
  have key: "ici_sessionId (fst call) = s" "ici_productId (fst call) = Some p"
    using assms(2) calls by simp_all
  obtain st' r where step: "addToCart st (fst call) (snd call) = (st', r)"
    by (cases "addToCart st (fst call) (snd call)")
  have none: "filter (sameCartLine (ici_sessionId (fst call)) (ici_productId (fst call))) (cartItems st) = []"
    using assms(4) key by simp
  have range: "integerColumn (ici_quantity (fst call))"
    using assms(5) calls by simp
  obtain row where row: "filter (sameCartLine s (Some p)) (cartItems st') = [row]"
      "ci_quantity row = ici_quantity (fst call)" "ci_id row = cartItems_seq st"
      "r = Returns (Some row)" "cartItems st' = cartItems st @ [row]"
    using addToCart_new(1)[OF none key(2) assms(3) range, of "snd call"] step key by auto
  have rest: "\<forall>call \<in> set rest. ici_sessionId (fst call) = s \<and> ici_productId (fst call) = Some p"
    using assms(2) calls by simp
  have sums: "\<forall>t \<in> set (runningSums (ci_quantity row) (map (\<lambda>call. ici_quantity (fst call)) rest)).
           integerColumn t"
    using assms(5) calls row(2) by simp
  note tl = addAll_existing[OF rest row(1) sums]
  obtain st'' rs where tail: "addAll st' rest = (st'', rs)"
    by (cases "addAll st' rest")
  show ?thesis
    using tl step tail row calls by simp
qed

theorem addToCart_merge_witness:
  "twoAdds \<noteq> []
   \<and> (\<exists>row. filter (sameCartLine ''s1'' (Some 1)) (cartItems (fst (addAll shop twoAdds))) = [row]
          \<and> ci_quantity row = 3 \<and> ci_id row = 1
          \<and> length (cartItems (fst (addAll shop twoAdds))) = 1
          \<and> Throws \<notin> set (snd (addAll shop twoAdds))
          \<and> Returns None \<notin> set (snd (addAll shop twoAdds)))"
proof -
  have h1: "twoAdds \<noteq> []"
    by (simp add: twoAdds_def)
  have h2: "\<forall>call \<in> set twoAdds. ici_sessionId (fst call) = ''s1'' \<and> ici_productId (fst call) = Some 1"
    by (simp add: twoAdds_def addSidamo_def)
  have h3: "1 \<in> p_id ` set (products shop)"
    by (simp add: shop_def sidamo_def)
  have h4: "filter (sameCartLine ''s1'' (Some 1)) (cartItems shop) = []"
    by (simp add: shop_def)
  have h5: "\<forall>t \<in> set (runningSums 0 (map (\<lambda>call. ici_quantity (fst call)) twoAdds)). integerColumn t"
    by (simp add: twoAdds_def addSidamo_def integerColumn_def)
  have total: "sum_list (map (\<lambda>call. ici_quantity (fst call)) twoAdds) = 3"
    by (simp add: twoAdds_def addSidamo_def)
  have start: "cartItems_seq shop = 1" "length (cartItems shop) = 0"
    by (simp_all add: shop_def)
  show ?thesis
    using addToCart_merge[OF h1 h2 h3 h4 h5] h1 total start by simp
qed

section \<open>Placing an order\<close>

subsection \<open>What the steps of the handler change\<close>

lemma createOrderItem_frame:
  "products (fst (createOrderItem st d)) = products st"
  "users (fst (createOrderItem st d)) = users st"
  "cartItems (fst (createOrderItem st d)) = cartItems st"
  "orders (fst (createOrderItem st d)) = orders st"
  "cartItems_seq (fst (createOrderItem st d)) = cartItems_seq st"
  "orders_seq (fst (createOrderItem st d)) = orders_seq st"
  by (simp_all add: createOrderItem_def Let_def split: option.splits)

lemma createOrderItem_Throws:
  "snd (createOrderItem st d) = Throws \<Longrightarrow> orderItems (fst (createOrderItem st d)) = orderItems st"
  by (simp add: createOrderItem_def Let_def split: option.splits if_splits)

lemma createOrderItem_Returns:
  "snd (createOrderItem st d) = Returns row \<Longrightarrow>
     orderItems (fst (createOrderItem st d)) = orderItems st @ [row]
     \<and> oi_orderId row = ioi_orderId d \<and> oi_productId row = ioi_productId d
     \<and> oi_quantity row = ioi_quantity d \<and> decimalColumn (ioi_price d) = Some (oi_price row)
     \<and> oi_customizations row = ioi_customizations d
     \<and> oi_id row = orderItems_seq st"
  by (simp add: createOrderItem_def Let_def split: option.splits if_splits) auto

lemma createOrderItem_accepts:
  "(\<exists>row. snd (createOrderItem st d) = Returns row)
     = (integerColumn (ioi_quantity d) \<and> decimalColumn (ioi_price d) \<noteq> None
        \<and> references (ioi_orderId d) (map o_id (orders st))
        \<and> references (ioi_productId d) (map p_id (products st)))"
  by (simp add: createOrderItem_def Let_def split: option.splits)

lemma insertOrderItemSchema_parse_Some:
  "insertOrderItemSchema_parse item oid = Some d \<Longrightarrow>
     ioi_orderId d = Some oid \<and> ioi_productId d = oib_productId item
     \<and> oib_quantity item = Some (ioi_quantity d) \<and> oib_price item = Some (ioi_price d)
     \<and> ioi_customizations d = oib_customizations item"
  by (auto simp: insertOrderItemSchema_parse_def split: option.splits)

lemma insertOrderItemSchema_parse_None:
  "insertOrderItemSchema_parse item oid = None \<Longrightarrow> \<not> lineAccepted st item"
  by (auto simp: insertOrderItemSchema_parse_def lineAccepted_def split: option.splits)

lemma lineAccepted_step:
  assumes "insertOrderItemSchema_parse item oid = Some d" and "oid \<in> o_id ` set (orders st)"
  shows "lineAccepted st item = (\<exists>row. snd (createOrderItem st d) = Returns row)"
proof -
  have d: "ioi_orderId d = Some oid" "ioi_productId d = oib_productId item"
    "oib_quantity item = Some (ioi_quantity d)" "oib_price item = Some (ioi_price d)"
    using insertOrderItemSchema_parse_Some[OF assms(1)] by simp_all
  show ?thesis
    unfolding createOrderItem_accepts
    using d assms(2) by (simp add: lineAccepted_def references_def)
qed

lemma lineAccepted_products:
  "products st' = products st \<Longrightarrow> lineAccepted st' item = lineAccepted st item"
  by (simp add: lineAccepted_def)

lemma createOrderItems_frame:
  "products (fst (createOrderItems st oid items)) = products st
   \<and> users (fst (createOrderItems st oid items)) = users st
   \<and> cartItems (fst (createOrderItems st oid items)) = cartItems st
   \<and> orders (fst (createOrderItems st oid items)) = orders st
   \<and> cartItems_seq (fst (createOrderItems st oid items)) = cartItems_seq st
   \<and> orders_seq (fst (createOrderItems st oid items)) = orders_seq st"
proof (induction items arbitrary: st)
  case Nil
  show ?case by simp
next
  case (Cons item items)
  show ?case
  proof (cases "insertOrderItemSchema_parse item oid")
    case None
    then show ?thesis by simp
  next
    case (Some d)
    obtain st' r where step: "createOrderItem st d = (st', r)"
      by (cases "createOrderItem st d")
    have fr: "products st' = products st" "users st' = users st" "cartItems st' = cartItems st"
      "orders st' = orders st" "cartItems_seq st' = cartItems_seq st" "orders_seq st' = orders_seq st"
      using createOrderItem_frame[of st d] step by simp_all
    show ?thesis
    proof (cases r)
      case Throws
      then show ?thesis using Some step fr by simp
    next
      case (Returns row)
      then show ?thesis using Some step fr Cons.IH[of st'] by simp
    qed
  qed
qed

text \<open>The loop writes the items of the lines before the first one that is not accepted,
  and ends normally exactly when every line is accepted.\<close>

lemma createOrderItems_written:
  assumes "oid \<in> o_id ` set (orders st)"
  shows "\<exists>rows. orderItems (fst (createOrderItems st oid items)) = orderItems st @ rows
      \<and> list_all2 (writtenFrom oid) (takeWhile (lineAccepted st) items) rows
      \<and> (snd (createOrderItems st oid items) = None) = list_all (lineAccepted st) items"
  using assms
proof (induction items arbitrary: st)
  case Nil
  show ?case by simp
next
  case (Cons item items)
  show ?case
  proof (cases "insertOrderItemSchema_parse item oid")
    case None
    then have "\<not> lineAccepted st item"
      by (rule insertOrderItemSchema_parse_None)
    then show ?thesis using None by simp
  next
    case (Some d)
    note d = insertOrderItemSchema_parse_Some[OF Some]
    note acc = lineAccepted_step[OF Some Cons.prems]
    obtain st' r where step: "createOrderItem st d = (st', r)"
      by (cases "createOrderItem st d")
    show ?thesis
    proof (cases r)
      case Throws
      then have no: "\<not> lineAccepted st item"
        using acc step by simp
      have "orderItems st' = orderItems st"
        using step Throws createOrderItem_Throws[of st d] by simp
      then show ?thesis using Some Throws step no by simp
    next
      case (Returns row)
      then have yes: "lineAccepted st item"
        using acc step by simp
      have row: "orderItems st' = orderItems st @ [row]" "writtenFrom oid item row"
        using step Returns d createOrderItem_Returns[of st d row] by (simp_all add: writtenFrom_def)
      have fr: "products st' = products st" "orders st' = orders st"
        using createOrderItem_frame(1,4)[of st d] step by simp_all
      have same: "lineAccepted st' = lineAccepted st"
        by (rule ext) (rule lineAccepted_products[OF fr(1)])
      have there: "oid \<in> o_id ` set (orders st')"
        using Cons.prems fr(2) by simp
      obtain rows where rows: "orderItems (fst (createOrderItems st' oid items)) = orderItems st' @ rows"
        "list_all2 (writtenFrom oid) (takeWhile (lineAccepted st') items) rows"
        "(snd (createOrderItems st' oid items) = None) = list_all (lineAccepted st') items"
        using Cons.IH[OF there] by (elim exE conjE) (rule that)
      have "orderItems (fst (createOrderItems st oid (item # items))) = orderItems st @ (row # rows)"
        using Some step Returns row(1) rows(1) by simp
      moreover have "list_all2 (writtenFrom oid) (takeWhile (lineAccepted st) (item # items)) (row # rows)"
        using row(2) rows(2) yes same by simp
      moreover have "(snd (createOrderItems st oid (item # items)) = None)
          = list_all (lineAccepted st) (item # items)"
        using Some step Returns rows(3) yes same by simp
      ultimately show ?thesis by (intro exI[of _ "row # rows"] conjI)
    qed
  qed
qed

lemma createOrder_frame:
  "products (fst (createOrder st d now)) = products st"
  "users (fst (createOrder st d now)) = users st"
  "cartItems (fst (createOrder st d now)) = cartItems st"
  "orderItems (fst (createOrder st d now)) = orderItems st"
  "cartItems_seq (fst (createOrder st d now)) = cartItems_seq st"
  "orderItems_seq (fst (createOrder st d now)) = orderItems_seq st"
  by (simp_all add: createOrder_def Let_def split: option.splits)

lemma createOrder_Throws:
  "snd (createOrder st d now) = Throws \<Longrightarrow> orders (fst (createOrder st d now)) = orders st"
  by (simp add: createOrder_def Let_def split: option.splits if_splits)

lemma createOrder_Returns:
  "snd (createOrder st d now) = Returns order \<Longrightarrow>
     orders (fst (createOrder st d now)) = orders st @ [order]
     \<and> o_id order = orders_seq st \<and> decimalColumn (io_totalAmount d) = Some (o_totalAmount order)
     \<and> orders_seq (fst (createOrder st d now)) = Suc (orders_seq st)"
  by (simp add: createOrder_def Let_def split: option.splits if_splits) auto

lemma createOrder_accepts:
  "(\<exists>order. snd (createOrder st d now) = Returns order)
     = (decimalColumn (io_totalAmount d) \<noteq> None \<and> references (io_userId d) (users st))"
  by (simp add: createOrder_def Let_def split: option.splits)

lemma insertOrderSchema_parse_Some:
  "insertOrderSchema_parse body = Some d \<Longrightarrow>
     ob_totalAmount body = Some (io_totalAmount d) \<and> io_userId d = ob_userId body
     \<and> io_status d = ob_status body"
  by (auto simp: insertOrderSchema_parse_def split: option.splits)

lemma placeOrder_unfold:
  "placeOrder st s body now =
     (case insertOrderSchema_parse body of
        None \<Rightarrow> (st, Inl ZodError)
      | Some d \<Rightarrow>
          (case snd (createOrder st d now) of
             Throws \<Rightarrow> (fst (createOrder st d now), Inl ServerError)
           | Returns order \<Rightarrow>
               (case ob_orderItems body of
                  None \<Rightarrow> (fst (createOrder st d now), Inl ServerError)
                | Some items \<Rightarrow>
                    (case snd (createOrderItems (fst (createOrder st d now)) (o_id order) items) of
                       Some e \<Rightarrow>
                         (fst (createOrderItems (fst (createOrder st d now)) (o_id order) items), Inl e)
                     | None \<Rightarrow>
                         (clearCart (fst (createOrderItems (fst (createOrder st d now)) (o_id order) items)) s,
                          Inr order)))))"
  by (simp add: placeOrder_def split: option.splits prod.splits outcome.splits)

lemma placeOrder_cases [case_names invalid refused noItems itemFailed committed]:
  obtains
    "insertOrderSchema_parse body = None"
    "placeOrder st s body now = (st, Inl ZodError)"
  | d where "insertOrderSchema_parse body = Some d"
      "snd (createOrder st d now) = Throws"
      "placeOrder st s body now = (fst (createOrder st d now), Inl ServerError)"
  | d order where "insertOrderSchema_parse body = Some d"
      "snd (createOrder st d now) = Returns order"
      "ob_orderItems body = None"
      "placeOrder st s body now = (fst (createOrder st d now), Inl ServerError)"
  | d order items e where "insertOrderSchema_parse body = Some d"
      "snd (createOrder st d now) = Returns order"
      "ob_orderItems body = Some items"
      "snd (createOrderItems (fst (createOrder st d now)) (o_id order) items) = Some e"
      "placeOrder st s body now =
         (fst (createOrderItems (fst (createOrder st d now)) (o_id order) items), Inl e)"
  | d order items where "insertOrderSchema_parse body = Some d"
      "snd (createOrder st d now) = Returns order"
      "ob_orderItems body = Some items"
      "snd (createOrderItems (fst (createOrder st d now)) (o_id order) items) = None"
      "placeOrder st s body now =
         (clearCart (fst (createOrderItems (fst (createOrder st d now)) (o_id order) items)) s,
          Inr order)"
proof (cases "insertOrderSchema_parse body")
  case None
  then show ?thesis using that(1) by (simp add: placeOrder_unfold)
next
  case (Some d)
  show ?thesis
  proof (cases "snd (createOrder st d now)")
    case Throws
    then show ?thesis using that(2)[OF Some] Some
      by (simp add: placeOrder_unfold)
  next
    case order: (Returns order)
    show ?thesis
    proof (cases "ob_orderItems body")
      case None
      then show ?thesis using that(3)[OF Some order] Some order
        by (simp add: placeOrder_unfold)
    next
      case items: (Some items)
      show ?thesis
      proof (cases "snd (createOrderItems (fst (createOrder st d now)) (o_id order) items)")
        case None
        then show ?thesis using that(5)[OF Some order items] Some order items
          by (simp add: placeOrder_unfold)
      next
        case (Some e)
        then show ?thesis
          using that(4)[OF \<open>insertOrderSchema_parse body = Some d\<close> order items]
            \<open>insertOrderSchema_parse body = Some d\<close> order items
          by (simp add: placeOrder_unfold)
      qed
    qed
  qed
qed

lemma headerAccepted_step:
  "headerAccepted st body
     = (\<exists>d order. insertOrderSchema_parse body = Some d \<and> snd (createOrder st d now) = Returns order)"
proof (cases "insertOrderSchema_parse body")
  case None
  then show ?thesis by (simp add: headerAccepted_def)
next
  case (Some d)
  then show ?thesis
    using createOrder_accepts[of st d now] by (simp add: headerAccepted_def)
qed

text \<open>A body whose header is not accepted: the handler fails and has written nothing.\<close>

lemma placeOrder_rejected:
  assumes "\<not> headerAccepted st body"
  shows "(\<exists>e. snd (placeOrder st s body now) = Inl e)
    \<and> orders (fst (placeOrder st s body now)) = orders st
    \<and> orderItems (fst (placeOrder st s body now)) = orderItems st
    \<and> cartItems (fst (placeOrder st s body now)) = cartItems st
    \<and> products (fst (placeOrder st s body now)) = products st"
proof (cases rule: placeOrder_cases[where st=st and s=s and body=body and now=now])
  case invalid
  then show ?thesis by simp
next
  case (refused d)
  then show ?thesis
    using createOrder_frame[of st d now] createOrder_Throws[of st d now] by simp
next
  case (noItems d order)
  then have "headerAccepted st body"
    unfolding headerAccepted_step[of st body now] by (intro exI[of _ d] exI[of _ order] conjI)
  then show ?thesis using assms by simp
next
  case (itemFailed d order items e)
  then have "headerAccepted st body"
    unfolding headerAccepted_step[of st body now] by (intro exI[of _ d] exI[of _ order] conjI)
  then show ?thesis using assms by simp
next
  case (committed d order items)
  then have "headerAccepted st body"
    unfolding headerAccepted_step[of st body now] by (intro exI[of _ d] exI[of _ order] conjI)
  then show ?thesis using assms by simp
qed

text \<open>
  A body whose header is accepted: the header is written, then the items of the lines
  before the first one that is not accepted; the handler succeeds, and clears the cart,
  exactly when the body has its lines and every line is accepted.
\<close>

lemma placeOrder_written:
  assumes "headerAccepted st body"
  shows "\<exists>header rows.
      orders (fst (placeOrder st s body now)) = orders st @ [header]
      \<and> o_id header = orders_seq st
      \<and> Option.bind (ob_totalAmount body) decimalColumn = Some (o_totalAmount header)
      \<and> orderItems (fst (placeOrder st s body now)) = orderItems st @ rows
      \<and> list_all2 (writtenFrom (o_id header)) (takeWhile (lineAccepted st) (linesOf body)) rows
      \<and> products (fst (placeOrder st s body now)) = products st
      \<and> (if ob_orderItems body \<noteq> None \<and> list_all (lineAccepted st) (linesOf body)
         then snd (placeOrder st s body now) = Inr header
              \<and> cartItems (fst (placeOrder st s body now))
                  = filter (\<lambda>c. ci_sessionId c \<noteq> s) (cartItems st)
         else (\<exists>e. snd (placeOrder st s body now) = Inl e)
              \<and> cartItems (fst (placeOrder st s body now)) = cartItems st)"
proof -
  obtain d order where d: "insertOrderSchema_parse body = Some d"
    and order: "snd (createOrder st d now) = Returns order"
    using assms unfolding headerAccepted_step[of st body now] by (elim exE conjE)
  let ?st1 = "fst (createOrder st d now)"
  have hdr: "orders ?st1 = orders st @ [order]" "o_id order = orders_seq st"
    "decimalColumn (io_totalAmount d) = Some (o_totalAmount order)"
    using createOrder_Returns[OF order] by simp_all
  have total: "Option.bind (ob_totalAmount body) decimalColumn = Some (o_totalAmount order)"
    using insertOrderSchema_parse_Some[OF d] hdr(3) by simp
  have fr1: "products ?st1 = products st" "cartItems ?st1 = cartItems st" "orderItems ?st1 = orderItems st"
    using createOrder_frame[of st d now] by simp_all
  have same: "lineAccepted ?st1 = lineAccepted st"
    by (rule ext) (rule lineAccepted_products[OF fr1(1)])
  have there: "o_id order \<in> o_id ` set (orders ?st1)"
    using hdr(1) by simp
  show ?thesis
  proof (cases "ob_orderItems body")
    case None
    then have res: "placeOrder st s body now = (?st1, Inl ServerError)"
      using d order by (simp add: placeOrder_unfold)
    have "list_all2 (writtenFrom (o_id order)) (takeWhile (lineAccepted st) (linesOf body)) []"
      using None by (simp add: linesOf_def)
    then show ?thesis
      using res hdr(1,2) total fr1 None
      by (intro exI[of _ order] exI[of _ "[]"]) simp
  next
    case (Some items)
    let ?st2 = "fst (createOrderItems ?st1 (o_id order) items)"
    obtain rows where rows: "orderItems ?st2 = orderItems ?st1 @ rows"
      "list_all2 (writtenFrom (o_id order)) (takeWhile (lineAccepted ?st1) items) rows"
      "(snd (createOrderItems ?st1 (o_id order) items) = None) = list_all (lineAccepted ?st1) items"
      using createOrderItems_written[OF there, of items] by (elim exE conjE) (rule that)
    have fr2: "products ?st2 = products ?st1" "cartItems ?st2 = cartItems ?st1" "orders ?st2 = orders ?st1"
      using createOrderItems_frame[of ?st1 "o_id order" items] by simp_all
    have lines: "linesOf body = items"
      using Some by (simp add: linesOf_def)
    have written: "list_all2 (writtenFrom (o_id order)) (takeWhile (lineAccepted st) (linesOf body)) rows"
      using rows(2) same lines by simp
    show ?thesis
    proof (cases "list_all (lineAccepted st) items")
      case True
      then have "snd (createOrderItems ?st1 (o_id order) items) = None"
        using rows(3) same by simp
      then have res: "placeOrder st s body now = (clearCart ?st2 s, Inr order)"
        using d order Some by (simp add: placeOrder_unfold)
      show ?thesis
        using res hdr(1,2) total fr1 fr2 rows(1) written Some True lines
        by (intro exI[of _ order] exI[of _ rows]) (simp add: clearCart_def)
    next
      case False
      then have "snd (createOrderItems ?st1 (o_id order) items) \<noteq> None"
        using rows(3) same by simp
      then obtain e where "snd (createOrderItems ?st1 (o_id order) items) = Some e"
        by (cases "snd (createOrderItems ?st1 (o_id order) items)") auto
      then have res: "placeOrder st s body now = (?st2, Inl e)"
        using d order Some by (simp add: placeOrder_unfold)
      show ?thesis
        using res hdr(1,2) total fr1 fr2 rows(1) written Some False lines
        by (intro exI[of _ order] exI[of _ rows]) simp
    qed
  qed
qed

lemma placeOrder_accepted_iff:
  "(\<exists>order. snd (placeOrder st s body now) = Inr order)
     = (headerAccepted st body \<and> ob_orderItems body \<noteq> None \<and> list_all (lineAccepted st) (linesOf body))"
proof (cases "headerAccepted st body")
  case False
  then show ?thesis
    using placeOrder_rejected[OF False, of s now] by auto
next
  case True
  obtain header rows where w:
      "if ob_orderItems body \<noteq> None \<and> list_all (lineAccepted st) (linesOf body)
         then snd (placeOrder st s body now) = Inr header
              \<and> cartItems (fst (placeOrder st s body now))
                  = filter (\<lambda>c. ci_sessionId c \<noteq> s) (cartItems st)
         else (\<exists>e. snd (placeOrder st s body now) = Inl e)
              \<and> cartItems (fst (placeOrder st s body now)) = cartItems st"
    using placeOrder_written[OF True, of s now] by (elim exE conjE) (rule that)
  show ?thesis
  proof (cases "ob_orderItems body \<noteq> None \<and> list_all (lineAccepted st) (linesOf body)")
    case yes: True
    then have "snd (placeOrder st s body now) = Inr header"
      using w by simp
    then show ?thesis using True yes by simp
  next
    case no: False
    then have "\<exists>e. snd (placeOrder st s body now) = Inl e"
      using w by simp
    then show ?thesis using no by auto
  qed
qed


lemma placeOrder_success:
  assumes "snd (placeOrder st s body now) = Inr order"
  shows "\<exists>items rows. ob_orderItems body = Some items
           \<and> Option.bind (ob_totalAmount body) decimalColumn = Some (o_totalAmount order)
           \<and> o_id order = orders_seq st
           \<and> orders (fst (placeOrder st s body now)) = orders st @ [order]
           \<and> orderItems (fst (placeOrder st s body now)) = orderItems st @ rows
           \<and> list_all2 (writtenFrom (o_id order)) items rows
           \<and> cartItems (fst (placeOrder st s body now))
               = filter (\<lambda>c. ci_sessionId c \<noteq> s) (cartItems st)
           \<and> products (fst (placeOrder st s body now)) = products st"
proof -
  have acc: "headerAccepted st body" "ob_orderItems body \<noteq> None" "list_all (lineAccepted st) (linesOf body)"
    using placeOrder_accepted_iff[of st s body now] assms by auto
  obtain items where items: "ob_orderItems body = Some items"
    using acc(2) by (cases "ob_orderItems body") auto
  have lines: "linesOf body = items"
    using items by (simp add: linesOf_def)
  have all: "takeWhile (lineAccepted st) items = items"
    using acc(3) lines by (simp add: list_all_iff)
  obtain header rows where w:
      "orders (fst (placeOrder st s body now)) = orders st @ [header]"
      "o_id header = orders_seq st"
      "Option.bind (ob_totalAmount body) decimalColumn = Some (o_totalAmount header)"
      "orderItems (fst (placeOrder st s body now)) = orderItems st @ rows"
      "list_all2 (writtenFrom (o_id header)) (takeWhile (lineAccepted st) (linesOf body)) rows"
      "products (fst (placeOrder st s body now)) = products st"
      "if ob_orderItems body \<noteq> None \<and> list_all (lineAccepted st) (linesOf body)
         then snd (placeOrder st s body now) = Inr header
              \<and> cartItems (fst (placeOrder st s body now))
                  = filter (\<lambda>c. ci_sessionId c \<noteq> s) (cartItems st)
         else (\<exists>e. snd (placeOrder st s body now) = Inl e)
              \<and> cartItems (fst (placeOrder st s body now)) = cartItems st"
    using placeOrder_written[OF acc(1), of s now] by (elim exE conjE) (rule that)
  have res: "snd (placeOrder st s body now) = Inr header"
    "cartItems (fst (placeOrder st s body now)) = filter (\<lambda>c. ci_sessionId c \<noteq> s) (cartItems st)"
    using w(7) acc(2,3) by simp_all
  have eq: "header = order"
    using res(1) assms by simp
  have written: "list_all2 (writtenFrom (o_id order)) items rows"
    using w(5) lines all eq by simp
  show ?thesis
    using items w(1,2,3,4,6) res(2) written eq
    by (intro exI[of _ items] exI[of _ rows]) simp
qed

lemma writtenFrom_total:
  "list_all2 (writtenFrom k) items rows \<Longrightarrow> itemsTotal rows = linesTotal items"
  by (induction rule: list_all2_induct)
     (auto simp: itemsTotal_def linesTotal_def lineAmount_def writtenFrom_def split: option.splits)

lemma writtenFrom_prices:
  "list_all2 (writtenFrom k) items rows \<Longrightarrow>
     map (\<lambda>item. Option.bind (oib_price item) decimalColumn) items = map (\<lambda>r. Some (oi_price r)) rows"
  by (induction rule: list_all2_induct) (auto simp: writtenFrom_def split: option.splits)

lemma writtenFrom_quantities:
  "list_all2 (writtenFrom k) items rows \<Longrightarrow> map oib_quantity items = map (\<lambda>r. Some (oi_quantity r)) rows"
  by (induction rule: list_all2_induct) (auto simp: writtenFrom_def)

lemma writtenFrom_orderId:
  "list_all2 (writtenFrom k) items rows \<Longrightarrow> filter (\<lambda>i. oi_orderId i = Some k) rows = rows"
  by (induction rule: list_all2_induct) (auto simp: writtenFrom_def)

subsection \<open>The handler reads the keys of the catalog only\<close>

lemma createOrderItem_products:
  assumes "map p_id ps = map p_id (products st)"
  shows "createOrderItem (st\<lparr>products := ps\<rparr>) d
           = ((fst (createOrderItem st d))\<lparr>products := ps\<rparr>, snd (createOrderItem st d))"
  using assms
  by (cases "integerColumn (ioi_quantity d)"; cases "decimalColumn (ioi_price d)")
     (simp_all add: createOrderItem_def Let_def)

lemma createOrderItems_products:
  assumes "map p_id ps = map p_id (products st)"
  shows "createOrderItems (st\<lparr>products := ps\<rparr>) oid items
           = ((fst (createOrderItems st oid items))\<lparr>products := ps\<rparr>, snd (createOrderItems st oid items))"
  using assms
proof (induction items arbitrary: st)
  case Nil
  show ?case by simp
next
  case (Cons x items)
  show ?case
  proof (cases "insertOrderItemSchema_parse x oid")
    case None
    then show ?thesis by simp
  next
    case (Some d)
    have ids: "map p_id ps = map p_id (products (fst (createOrderItem st d)))"
      using Cons.prems createOrderItem_frame(1)[of st d] by simp
    show ?thesis
    proof (cases "snd (createOrderItem st d)")
      case Throws
      then show ?thesis
        using Some createOrderItem_products[OF Cons.prems, of d]
        by (simp add: split_beta)
    next
      case (Returns row)
      then show ?thesis
        using Some createOrderItem_products[OF Cons.prems, of d] Cons.IH[OF ids]
        by (simp add: split_beta)
    qed
  qed
qed

lemma createOrder_products:
  "createOrder (st\<lparr>products := ps\<rparr>) d now
     = ((fst (createOrder st d now))\<lparr>products := ps\<rparr>, snd (createOrder st d now))"
  by (simp add: createOrder_def Let_def split: option.splits)

lemma clearCart_products:
  "clearCart (st\<lparr>products := ps\<rparr>) s = (clearCart st s)\<lparr>products := ps\<rparr>"
  by (simp add: clearCart_def)

lemma placeOrder_products:
  assumes "map p_id ps = map p_id (products st)"
  shows "placeOrder (st\<lparr>products := ps\<rparr>) s body now
           = ((fst (placeOrder st s body now))\<lparr>products := ps\<rparr>, snd (placeOrder st s body now))"
proof -
  have ids: "map p_id ps = map p_id (products (fst (createOrder st d now)))" for d
    using assms createOrder_frame(1)[of st d now] by simp
  show ?thesis
    by (simp add: placeOrder_unfold createOrder_products createOrderItems_products[OF ids]
        clearCart_products split: option.splits outcome.splits)
qed

lemmas handler_defs = placeOrder_def insertOrderSchema_parse_def createOrder_def
  insertOrderItemSchema_parse_def createOrderItem_def clearCart_def references_def Let_def
  decimalColumn_def toHundredths_def integerColumn_def

lemmas example_defs = busyShop_def shop_def checkout_def lineOf_def headerOf_def itemRow_def
  sidamo_def supremo_def cartS1_def cartS2_def scenarioBody_def roundedBody_def halfCentBody_def
  tamperedBody_def mismatchedBody_def brokenBody_def unavailableBody_def unknownBody_def

lemma leftJoin_filter_left:
  "filter (\<lambda>row. P (fst row)) (leftJoin ls rs on) = leftJoin (filter P ls) rs on"
  by (induction ls) (auto simp: leftJoin_def split: list.splits)

lemma getCartItems_filter:
  "getCartItems st s
     = leftJoin (filter (\<lambda>c. ci_sessionId c = s) (cartItems st)) (products st)
         (\<lambda>c p. ci_productId c = Some (p_id p))"
  unfolding getCartItems_def
  by (rule leftJoin_filter_left[where P="\<lambda>c. ci_sessionId c = s"])

lemma scenario_runs:
  "snd (placeOrder busyShop ''s1'' scenarioBody 7) = Inr (headerOf 7497)"
  by (simp add: handler_defs example_defs)

lemma rounded_runs:
  "snd (placeOrder busyShop ''s1'' roundedBody 7) = Inr (headerOf 7497)"
  by (simp add: handler_defs example_defs)

lemma halfCent_runs:
  "snd (placeOrder busyShop ''s1'' halfCentBody 7) = Inr (headerOf 25)"
  by (simp add: handler_defs example_defs)

lemma unknown_runs:
  "snd (placeOrder busyShop ''s1'' unknownBody 7) = Inl ServerError"
  by (simp add: handler_defs example_defs)

subsection \<open>The total and the prices of an order\<close>

text \<open>
  Claim C1 says that the stored total is the sum of the catalog's prices times the
  quantities. It is not: in \<open>busyShop\<close> the Sidamo costs 24.99, the body asks for three
  of them at 0.01 each with a total of 0.01, and the order is created with total 0.01
  and an item priced 0.01, where the catalog gives 74.97.
\<close>

theorem placeOrder_total_counterexample:
  "snd (placeOrder busyShop ''s1'' tamperedBody 7) = Inr (headerOf 1)
   \<and> orderItems (fst (placeOrder busyShop ''s1'' tamperedBody 7)) = [itemRow 1 (Some 1) 3 1]
   \<and> ob_orderItems tamperedBody = Some [lineOf (Some 1) (Some 3) (Some (Decimal 1 2))]
   \<and> spec_totalAmount busyShop [lineOf (Some 1) (Some 3) (Some (Decimal 1 2))] = Some 7497
   \<and> Some (o_totalAmount (headerOf 1))
       \<noteq> spec_totalAmount busyShop [lineOf (Some 1) (Some 3) (Some (Decimal 1 2))]
   \<and> map_option p_price (getProduct busyShop 1) = Some 2499
   \<and> oi_price (itemRow 1 (Some 1) 3 1) = 1"
  by (simp add: handler_defs example_defs spec_lineAmount_def getProduct_def)

text \<open>
  Claim C1, amended. For every order created by the handler, the stored total is the
  \<open>totalAmount\<close> field of the request body as the \<^verbatim>\<open>decimal(10,2)\<close> column takes it,
  rounded to two decimals, a half away from zero (so 24.995 is stored as 25.00); the
  order items written for its lines carry, line by line, the \<open>price\<close> field of the body
  rounded in the same way and the \<open>quantity\<close> field of the body. The catalog's prices
  are not read: with any other prices in the catalog the same order is created.
\<close>

theorem placeOrder_total_from_body:
  assumes "snd (placeOrder st s body now) = Inr order"
  shows "Option.bind (ob_totalAmount body) decimalColumn = Some (o_totalAmount order)
    \<and> (\<exists>items rows. ob_orderItems body = Some items
          \<and> orderItems (fst (placeOrder st s body now)) = orderItems st @ rows
          \<and> map (\<lambda>r. Some (oi_price r)) rows
              = map (\<lambda>item. Option.bind (oib_price item) decimalColumn) items
          \<and> map (\<lambda>r. Some (oi_quantity r)) rows = map oib_quantity items)
    \<and> snd (placeOrder (st\<lparr>products := map (\<lambda>p. p\<lparr>p_price := f p\<rparr>) (products st)\<rparr>) s body now)
        = Inr order"
proof -
  obtain items rows where ok: "ob_orderItems body = Some items"
    "Option.bind (ob_totalAmount body) decimalColumn = Some (o_totalAmount order)"
    "orderItems (fst (placeOrder st s body now)) = orderItems st @ rows"
    "list_all2 (writtenFrom (o_id order)) items rows"
    using placeOrder_success[OF assms] by (elim exE conjE)
  have "\<exists>items rows. ob_orderItems body = Some items
          \<and> orderItems (fst (placeOrder st s body now)) = orderItems st @ rows
          \<and> map (\<lambda>r. Some (oi_price r)) rows
              = map (\<lambda>item. Option.bind (oib_price item) decimalColumn) items
          \<and> map (\<lambda>r. Some (oi_quantity r)) rows = map oib_quantity items"
    using ok(1,3) writtenFrom_prices[OF ok(4), symmetric] writtenFrom_quantities[OF ok(4), symmetric]
    by (intro exI[of _ items] exI[of _ rows] conjI)
  moreover have "map p_id (map (\<lambda>p. p\<lparr>p_price := f p\<rparr>) (products st)) = map p_id (products st)"
    by simp
  then have "snd (placeOrder (st\<lparr>products := map (\<lambda>p. p\<lparr>p_price := f p\<rparr>) (products st)\<rparr>) s body now)
        = Inr order"
    using placeOrder_products[of "map (\<lambda>p. p\<lparr>p_price := f p\<rparr>) (products st)" st s body now] assms
    by simp
  ultimately show ?thesis using ok(2) by (intro conjI)
qed

theorem placeOrder_total_from_body_witness:
  "(ob_totalAmount roundedBody = Some (Decimal 74965 3)
    \<and> ob_orderItems roundedBody = Some [lineOf (Some 1) (Some 3) (Some (Decimal 24985 3))]
    \<and> orderItems (fst (placeOrder busyShop ''s1'' roundedBody 7)) = [itemRow 1 (Some 1) 3 2499])
   \<and> snd (placeOrder busyShop ''s1'' roundedBody 7) = Inr (headerOf 7497)
   \<and> (Option.bind (ob_totalAmount roundedBody) decimalColumn = Some (o_totalAmount (headerOf 7497))
    \<and> (\<exists>items rows. ob_orderItems roundedBody = Some items
          \<and> orderItems (fst (placeOrder busyShop ''s1'' roundedBody 7)) = orderItems busyShop @ rows
          \<and> map (\<lambda>r. Some (oi_price r)) rows
              = map (\<lambda>item. Option.bind (oib_price item) decimalColumn) items
          \<and> map (\<lambda>r. Some (oi_quantity r)) rows = map oib_quantity items)
    \<and> snd (placeOrder (busyShop\<lparr>products := map (\<lambda>p. p\<lparr>p_price := 2 * p_price p\<rparr>) (products busyShop)\<rparr>)
             ''s1'' roundedBody 7)
        = Inr (headerOf 7497))"
proof -
  have given: "ob_totalAmount roundedBody = Some (Decimal 74965 3)
    \<and> ob_orderItems roundedBody = Some [lineOf (Some 1) (Some 3) (Some (Decimal 24985 3))]
    \<and> orderItems (fst (placeOrder busyShop ''s1'' roundedBody 7)) = [itemRow 1 (Some 1) 3 2499]"
    by (simp add: handler_defs example_defs)
  show ?thesis
    using given
      conjI[OF rounded_runs placeOrder_total_from_body[OF rounded_runs, of "\<lambda>p. 2 * p_price p"]]
    by (rule conjI)
qed


subsection \<open>What a failed order leaves behind\<close>




subsection \<open>The sum invariant\<close>

text \<open>
  Claim C3 says that the total of every order is the sum of price times quantity over
  its items. This fails: \<open>mismatchedBody\<close> submits the total 100.00 with one line of
  three at 24.99, and order 1 is created with total 100.00 while its items sum to 74.97.
  It fails for a body whose own arithmetic is exact, too: \<open>halfCentBody\<close> submits the
  total 0.25 with one line of two at 0.125; the price is stored as 0.13, and order 1 has
  total 0.25 while its items sum to 0.26.
\<close>

theorem placeOrder_sum_counterexample:
  "snd (placeOrder busyShop ''s1'' mismatchedBody 7) = Inr (headerOf 10000)
   \<and> orderItemsOf (fst (placeOrder busyShop ''s1'' mismatchedBody 7)) 1 = [itemRow 1 (Some 1) 3 2499]
   \<and> itemsTotal (orderItemsOf (fst (placeOrder busyShop ''s1'' mismatchedBody 7)) 1) = 7497
   \<and> o_totalAmount (headerOf 10000) = 10000
   \<and> o_id (headerOf 10000) = 1
   \<and> o_totalAmount (headerOf 10000)
       \<noteq> itemsTotal (orderItemsOf (fst (placeOrder busyShop ''s1'' mismatchedBody 7)) 1)
   \<and> snd (placeOrder busyShop ''s1'' halfCentBody 7) = Inr (headerOf 25)
   \<and> orderItemsOf (fst (placeOrder busyShop ''s1'' halfCentBody 7)) 1 = [itemRow 1 (Some 1) 2 13]
   \<and> itemsTotal (orderItemsOf (fst (placeOrder busyShop ''s1'' halfCentBody 7)) 1) = 26
   \<and> o_totalAmount (headerOf 25) = 25"
  by (simp add: handler_defs example_defs orderItemsOf_def itemsTotal_def)

text \<open>
  Claim C3, amended. For an order created by the handler, in a database where no order
  item carries the key the new order gets (so in every state the handlers reach, by
  \<open>keysBelowSeq_placeOrder\<close> and \<open>keysBelowSeq_fresh\<close> below), the sum of price times quantity over the
  order's items is the sum, over the submitted lines, of the submitted price rounded to
  two decimals times the submitted quantity, and the stored total equals it exactly
  when the submitted total, rounded to two decimals, is that sum: the handler stores
  what it is given, each amount rounded on its own, and keeps the invariant only for
  bodies that satisfy it after this rounding.
\<close>

theorem placeOrder_sum_iff_submitted:
  assumes "snd (placeOrder st s body now) = Inr order"
    and "\<forall>i \<in> set (orderItems st). oi_orderId i \<noteq> Some (orders_seq st)"
  shows "\<exists>items. ob_orderItems body = Some items
           \<and> itemsTotal (orderItemsOf (fst (placeOrder st s body now)) (o_id order)) = linesTotal items
           \<and> ((o_totalAmount order = itemsTotal (orderItemsOf (fst (placeOrder st s body now)) (o_id order)))
                = (Option.bind (ob_totalAmount body) decimalColumn = Some (linesTotal items)))"
proof -
  obtain items rows where ok: "ob_orderItems body = Some items"
    "Option.bind (ob_totalAmount body) decimalColumn = Some (o_totalAmount order)"
    "o_id order = orders_seq st"
    "orderItems (fst (placeOrder st s body now)) = orderItems st @ rows"
    "list_all2 (writtenFrom (o_id order)) items rows"
    using placeOrder_success[OF assms(1)] by (elim exE conjE)
  have old: "filter (\<lambda>i. oi_orderId i = Some (o_id order)) (orderItems st) = []"
    using assms(2) ok(3) by (simp add: filter_empty_conv)
  have "orderItemsOf (fst (placeOrder st s body now)) (o_id order) = rows"
    using ok(4) old writtenFrom_orderId[OF ok(5)] by (simp add: orderItemsOf_def)
  then have total: "itemsTotal (orderItemsOf (fst (placeOrder st s body now)) (o_id order)) = linesTotal items"
    using writtenFrom_total[OF ok(5)] by simp
  have "(o_totalAmount order = itemsTotal (orderItemsOf (fst (placeOrder st s body now)) (o_id order)))
                = (Option.bind (ob_totalAmount body) decimalColumn = Some (linesTotal items))"
    using total ok(2) by auto
  then show ?thesis using ok(1) total by (intro exI[of _ items] conjI)
qed

theorem placeOrder_sum_iff_submitted_witness:
  "(snd (placeOrder busyShop ''s1'' scenarioBody 7) = Inr (headerOf 7497)
   \<and> (\<exists>items. ob_orderItems scenarioBody = Some items
           \<and> itemsTotal (orderItemsOf (fst (placeOrder busyShop ''s1'' scenarioBody 7)) (o_id (headerOf 7497)))
               = linesTotal items
           \<and> ((o_totalAmount (headerOf 7497)
                 = itemsTotal (orderItemsOf (fst (placeOrder busyShop ''s1'' scenarioBody 7)) (o_id (headerOf 7497))))
                = (Option.bind (ob_totalAmount scenarioBody) decimalColumn = Some (linesTotal items)))))
   \<and> (snd (placeOrder busyShop ''s1'' halfCentBody 7) = Inr (headerOf 25)
   \<and> (\<exists>items. ob_orderItems halfCentBody = Some items
           \<and> itemsTotal (orderItemsOf (fst (placeOrder busyShop ''s1'' halfCentBody 7)) (o_id (headerOf 25)))
               = linesTotal items
           \<and> ((o_totalAmount (headerOf 25)
                 = itemsTotal (orderItemsOf (fst (placeOrder busyShop ''s1'' halfCentBody 7)) (o_id (headerOf 25))))
                = (Option.bind (ob_totalAmount halfCentBody) decimalColumn = Some (linesTotal items)))))"
proof -
  have fresh: "\<forall>i \<in> set (orderItems busyShop). oi_orderId i \<noteq> Some (orders_seq busyShop)"
    by (simp add: busyShop_def)
  show ?thesis
    using conjI[OF scenario_runs placeOrder_sum_iff_submitted[OF scenario_runs fresh]]
      conjI[OF halfCent_runs placeOrder_sum_iff_submitted[OF halfCent_runs fresh]]
    by (rule conjI)
qed


subsection \<open>Unknown and unavailable products\<close>




subsection \<open>Clearing the cart\<close>

text \<open>
  Claim C7. After an order has been placed for session \<open>s\<close>, the cart table holds the rows
  of before whose session is not \<open>s\<close>: listing the cart of \<open>s\<close> gives nothing, listing
  the cart of any other session gives what it gave before. \<open>clearCart\<close> removes the rows
  of the session and no others, changes no other table, and clearing twice is clearing
  once.
\<close>

theorem placeOrder_clears_session_cart:
  assumes "snd (placeOrder st s body now) = Inr order"
  shows "cartItems (fst (placeOrder st s body now)) = filter (\<lambda>c. ci_sessionId c \<noteq> s) (cartItems st)
    \<and> getCartItems (fst (placeOrder st s body now)) s = []
    \<and> (\<forall>s'. s' \<noteq> s \<longrightarrow> getCartItems (fst (placeOrder st s body now)) s' = getCartItems st s')
    \<and> cartItems (clearCart st s) = filter (\<lambda>c. ci_sessionId c \<noteq> s) (cartItems st)
    \<and> clearCart st s = st\<lparr>cartItems := cartItems (clearCart st s)\<rparr>
    \<and> clearCart (clearCart st s) s = clearCart st s"
proof -
  obtain items rows where ok:
    "cartItems (fst (placeOrder st s body now)) = filter (\<lambda>c. ci_sessionId c \<noteq> s) (cartItems st)"
    "products (fst (placeOrder st s body now)) = products st"
    using placeOrder_success[OF assms] by (elim exE conjE)
  have own: "getCartItems (fst (placeOrder st s body now)) s = []"
    by (simp add: getCartItems_filter ok leftJoin_def)
  have others: "\<forall>s'. s' \<noteq> s \<longrightarrow> getCartItems (fst (placeOrder st s body now)) s' = getCartItems st s'"
  proof (intro allI impI)
    fix s' assume "s' \<noteq> s"
    then have "filter (\<lambda>c. ci_sessionId c = s') (filter (\<lambda>c. ci_sessionId c \<noteq> s) (cartItems st))
        = filter (\<lambda>c. ci_sessionId c = s') (cartItems st)"
      by (auto intro: filter_cong)
    then show "getCartItems (fst (placeOrder st s body now)) s' = getCartItems st s'"
      by (simp add: getCartItems_filter ok)
  qed
  have clear: "cartItems (clearCart st s) = filter (\<lambda>c. ci_sessionId c \<noteq> s) (cartItems st)"
    "clearCart st s = st\<lparr>cartItems := cartItems (clearCart st s)\<rparr>"
    "clearCart (clearCart st s) s = clearCart st s"
    by (simp_all add: clearCart_def)
  show ?thesis using ok(1) own others clear by (intro conjI)
qed

theorem placeOrder_clears_session_cart_witness:
  "snd (placeOrder busyShop ''s1'' scenarioBody 7) = Inr (headerOf 7497)
   \<and> cartItems (fst (placeOrder busyShop ''s1'' scenarioBody 7)) = [cartS2]
   \<and> getCartItems (fst (placeOrder busyShop ''s1'' scenarioBody 7)) ''s1'' = []
   \<and> getCartItems (fst (placeOrder busyShop ''s1'' scenarioBody 7)) ''s2'' = [(cartS2, Some supremo)]
   \<and> clearCart (clearCart busyShop ''s1'') ''s1'' = clearCart busyShop ''s1''"
proof -
  have before: "getCartItems busyShop ''s2'' = [(cartS2, Some supremo)]"
    by (simp add: getCartItems_def leftJoin_def busyShop_def cartS1_def cartS2_def sidamo_def supremo_def)
  have "filter (\<lambda>c. ci_sessionId c \<noteq> ''s1'') (cartItems busyShop) = [cartS2]"
    by (simp add: busyShop_def cartS1_def cartS2_def)
  then show ?thesis
    using scenario_runs placeOrder_clears_session_cart[OF scenario_runs] before by simp
qed

section \<open>Listing and updating the cart\<close>

lemma leftJoin_unique:
  assumes "\<And>l. length (filter (on l) rs) \<le> 1"
  shows "leftJoin ls rs on = map (\<lambda>l. (l, find (on l) rs)) ls"
proof -
  have one: "(case filter (on l) rs of [] \<Rightarrow> [(l, None)] | ms \<Rightarrow> map (\<lambda>r. (l, Some r)) ms)
              = [(l, find (on l) rs)]" for l
  proof (cases "filter (on l) rs")
    case Nil
    then have "find (on l) rs = None"
      by (simp add: find_None_iff filter_empty_conv)
    then show ?thesis using Nil by simp
  next
    case (Cons m ms)
    then have "ms = []" using assms[of l] by simp
    moreover have "find (on l) rs = Some m"
      using Cons by (induction rs) (auto split: if_splits)
    ultimately show ?thesis using Cons by simp
  qed
  show ?thesis
    by (induction ls) (simp_all add: leftJoin_def one)
qed

lemma distinct_key_filter:
  assumes "distinct (map key rs)"
  shows "length (filter (\<lambda>r. k = Some (key r)) rs) \<le> 1"
  using assms
proof (induction rs)
  case Nil
  show ?case by simp
next
  case (Cons r rs)
  then show ?case
    by (auto simp: filter_empty_conv image_iff)
qed

text \<open>
  Claim C10. \<open>getCartItems\<close> returns one entry for every cart row of the session, in the
  order of the table, and no row is left out; the product of an entry is the product of
  the catalog with the row's product key, and it is null exactly when the catalog has no
  such product (the product was deleted, or the row has no product key). So the
  non-null assertion of the source holds for every entry if and only if every cart row
  of the session names a product that is in the catalog. Product keys are unique, as a
  primary key is.
\<close>

theorem getCartItems_every_row:
  assumes "distinct (map p_id (products st))"
  shows "getCartItems st s
           = map (\<lambda>c. (c, find (\<lambda>p. ci_productId c = Some (p_id p)) (products st)))
               (filter (\<lambda>c. ci_sessionId c = s) (cartItems st))
    \<and> map fst (getCartItems st s) = filter (\<lambda>c. ci_sessionId c = s) (cartItems st)
    \<and> (\<forall>row \<in> set (getCartItems st s).
          (snd row = None) = (\<forall>p \<in> set (products st). ci_productId (fst row) \<noteq> Some (p_id p)))
    \<and> ((\<forall>row \<in> set (getCartItems st s). snd row \<noteq> None)
        = (\<forall>c \<in> set (cartItems st). ci_sessionId c = s \<longrightarrow>
             (\<exists>p \<in> set (products st). ci_productId c = Some (p_id p))))"
proof -
  have len: "length (filter (\<lambda>p. ci_productId c = Some (p_id p)) (products st)) \<le> 1" for c
    by (rule distinct_key_filter[OF assms])
  have eq: "getCartItems st s
           = map (\<lambda>c. (c, find (\<lambda>p. ci_productId c = Some (p_id p)) (products st)))
               (filter (\<lambda>c. ci_sessionId c = s) (cartItems st))"
    unfolding getCartItems_filter
    by (rule leftJoin_unique) (rule len)
  have found: "(find P xs \<noteq> None) = (\<exists>x \<in> set xs. P x)" for P and xs :: "product list"
    by (auto simp: find_None_iff)
  have rows: "map fst (getCartItems st s) = filter (\<lambda>c. ci_sessionId c = s) (cartItems st)"
    by (simp add: eq comp_def)
  have null: "\<forall>row \<in> set (getCartItems st s).
          (snd row = None) = (\<forall>p \<in> set (products st). ci_productId (fst row) \<noteq> Some (p_id p))"
    by (auto simp: eq find_None_iff)
  have safe: "(\<forall>row \<in> set (getCartItems st s). snd row \<noteq> None)
        = (\<forall>c \<in> set (cartItems st). ci_sessionId c = s \<longrightarrow>
             (\<exists>p \<in> set (products st). ci_productId c = Some (p_id p)))"
    by (auto simp: eq found simp del: not_None_eq)
  show ?thesis using eq rows null safe by (intro conjI)
qed


theorem getCartItems_every_row_witness:
  "distinct (map p_id (products (busyShop\<lparr>products := [sidamo]\<rparr>)))
   \<and> getCartItems (busyShop\<lparr>products := [sidamo]\<rparr>) ''s2'' = [(cartS2, None)]
   \<and> getCartItems (busyShop\<lparr>products := [sidamo]\<rparr>) ''s1'' = [(cartS1, Some sidamo)]"
proof -
  have h: "distinct (map p_id (products (busyShop\<lparr>products := [sidamo]\<rparr>)))"
    by (simp add: busyShop_def)
  have s2: "map (\<lambda>c. (c, find (\<lambda>p. ci_productId c = Some (p_id p)) (products (busyShop\<lparr>products := [sidamo]\<rparr>))))
               (filter (\<lambda>c. ci_sessionId c = ''s2'') (cartItems (busyShop\<lparr>products := [sidamo]\<rparr>)))
            = [(cartS2, None)]"
    by (simp add: busyShop_def cartS1_def cartS2_def sidamo_def)
  have s1: "map (\<lambda>c. (c, find (\<lambda>p. ci_productId c = Some (p_id p)) (products (busyShop\<lparr>products := [sidamo]\<rparr>))))
               (filter (\<lambda>c. ci_sessionId c = ''s1'') (cartItems (busyShop\<lparr>products := [sidamo]\<rparr>)))
            = [(cartS1, Some sidamo)]"
    by (simp add: busyShop_def cartS1_def cartS2_def sidamo_def)
  show ?thesis
    using h getCartItems_every_row[OF h, of "''s2''"] getCartItems_every_row[OF h, of "''s1''"] s1 s2
    by simp
qed

subsection \<open>Updating a quantity\<close>




section \<open>Reading orders\<close>

lemma leftJoin_Nil [simp]: "leftJoin [] rs on = []"
  by (simp add: leftJoin_def)

lemma leftJoin_Cons:
  "leftJoin (l # ls) rs on =
     (case filter (on l) rs of [] \<Rightarrow> [(l, None)] | ms \<Rightarrow> map (\<lambda>r. (l, Some r)) ms) @ leftJoin ls rs on"
  by (simp add: leftJoin_def)

lemma leftJoin_fst: "row \<in> set (leftJoin ls rs on) \<Longrightarrow> fst row \<in> set ls"
  by (induction ls) (auto simp: leftJoin_Cons split: list.splits)

lemma leftJoin_empty_iff: "(leftJoin ls rs on = []) = (ls = [])"
  by (cases ls) (auto simp: leftJoin_Cons split: list.splits)

text \<open>The items that the rows of the second join yield.\<close>

lemma itemOfRow_leftJoin:
  "concat (map itemOfRow
      (leftJoin xs ps (\<lambda>row p. case snd row of None \<Rightarrow> False | Some i \<Rightarrow> oi_productId i = Some (p_id p))))
   = concat (map (\<lambda>x. case snd x of
                         None \<Rightarrow> []
                       | Some i \<Rightarrow> map (\<lambda>p. (i, p)) (filter (\<lambda>p. oi_productId i = Some (p_id p)) ps)) xs)"
proof (induction xs)
  case Nil
  show ?case by simp
next
  case (Cons x xs)
  show ?case
  proof (cases "snd x")
    case None
    then show ?thesis using Cons by (simp add: leftJoin_Cons itemOfRow_def)
  next
    case (Some i)
    have "concat (map itemOfRow
            (case filter (\<lambda>p. oi_productId i = Some (p_id p)) ps of
               [] \<Rightarrow> [(x, None)] | ms \<Rightarrow> map (\<lambda>r. (x, Some r)) ms))
          = map (\<lambda>p. (i, p)) (filter (\<lambda>p. oi_productId i = Some (p_id p)) ps)"
      using Some by (cases "filter (\<lambda>p. oi_productId i = Some (p_id p)) ps")
        (simp_all add: itemOfRow_def comp_def)
    then show ?thesis using Cons Some by (simp add: leftJoin_Cons)
  qed
qed

lemma items_leftJoin:
  "concat (map (\<lambda>x. case snd x of
                         None \<Rightarrow> []
                       | Some i \<Rightarrow> map (\<lambda>p. (i, p)) (filter (\<lambda>p. oi_productId i = Some (p_id p)) ps))
      (leftJoin os items (\<lambda>order i. oi_orderId i = Some (o_id order))))
   = concat (map (\<lambda>order. concat (map (\<lambda>i. map (\<lambda>p. (i, p)) (filter (\<lambda>p. oi_productId i = Some (p_id p)) ps))
                                     (filter (\<lambda>i. oi_orderId i = Some (o_id order)) items))) os)"
proof (induction os)
  case Nil
  show ?case by simp
next
  case (Cons order os)
  show ?case
    using Cons
    by (cases "filter (\<lambda>i. oi_orderId i = Some (o_id order)) items")
       (simp_all add: leftJoin_Cons comp_def)
qed

lemma orderRows_filter:
  "filter (\<lambda>row. P (fst (fst row))) (orderRows st)
     = leftJoin (leftJoin (filter P (orders st)) (orderItems st) (\<lambda>order i. oi_orderId i = Some (o_id order)))
         (products st)
         (\<lambda>row p. case snd row of None \<Rightarrow> False | Some i \<Rightarrow> oi_productId i = Some (p_id p))"
  unfolding orderRows_def
  using leftJoin_filter_left[where P="\<lambda>x. P (fst x)"] leftJoin_filter_left[where P=P]
  by metis

lemma orderRows_items:
  "concat (map itemOfRow (filter (\<lambda>row. P (fst (fst row))) (orderRows st)))
     = concat (map (\<lambda>order. joinedItems st (o_id order)) (filter P (orders st)))"
  by (simp add: orderRows_filter itemOfRow_leftJoin items_leftJoin joinedItems_def orderItemsOf_def)

lemma distinct_filter_key:
  assumes "distinct (map key xs)"
  shows "filter (\<lambda>x. key x = k) xs = (case find (\<lambda>x. key x = k) xs of None \<Rightarrow> [] | Some x \<Rightarrow> [x])"
  using assms
proof (induction xs)
  case Nil
  show ?case by simp
next
  case (Cons x xs)
  show ?case
  proof (cases "key x = k")
    case True
    then have "filter (\<lambda>x. key x = k) xs = []"
      using Cons.prems by (force simp: filter_empty_conv image_iff)
    then show ?thesis using True by simp
  next
    case False
    then show ?thesis using Cons by simp
  qed
qed

lemma getOrder_joined:
  assumes "distinct (map o_id (orders st))"
  shows "getOrder st i
           = map_option (\<lambda>order. (order, joinedItems st i)) (find (\<lambda>order. o_id order = i) (orders st))"
proof (cases "find (\<lambda>order. o_id order = i) (orders st)")
  case None
  then have "filter (\<lambda>order. o_id order = i) (orders st) = []"
    using distinct_filter_key[OF assms, of i] by simp
  then have "filter (\<lambda>row. o_id (fst (fst row)) = i) (orderRows st) = []"
    using orderRows_filter[of "\<lambda>order. o_id order = i" st] by simp
  then show ?thesis using None by (simp add: getOrder_def)
next
  case (Some order)
  then have one: "filter (\<lambda>order. o_id order = i) (orders st) = [order]"
    using distinct_filter_key[OF assms, of i] by simp
  then have "order \<in> set (filter (\<lambda>order. o_id order = i) (orders st))"
    by simp
  then have key: "o_id order = i"
    by simp
  let ?rows = "filter (\<lambda>row. o_id (fst (fst row)) = i) (orderRows st)"
  have rows: "?rows = leftJoin (leftJoin [order] (orderItems st) (\<lambda>order i. oi_orderId i = Some (o_id order)))
         (products st)
         (\<lambda>row p. case snd row of None \<Rightarrow> False | Some i \<Rightarrow> oi_productId i = Some (p_id p))"
    using orderRows_filter[of "\<lambda>order. o_id order = i" st] one by simp
  have "?rows \<noteq> []"
    unfolding rows by (simp add: leftJoin_empty_iff)
  then obtain row rest where split: "?rows = row # rest"
    by (cases ?rows) auto
  have "row \<in> set ?rows" using split by simp
  then have "fst row \<in> set (leftJoin [order] (orderItems st) (\<lambda>order i. oi_orderId i = Some (o_id order)))"
    unfolding rows by (rule leftJoin_fst)
  then have "fst (fst row) \<in> set [order]"
    by (rule leftJoin_fst)
  then have first: "fst (fst row) = order" by simp
  have "concat (map itemOfRow ?rows) = joinedItems st i"
    using orderRows_items[of "\<lambda>order. o_id order = i" st] one key by simp
  then show ?thesis
    using Some split first by (simp add: getOrder_def)
qed


lemma find_map_key:
  assumes "\<And>e. key (g e) = key e"
  shows "find (\<lambda>e. key e = k) (map g xs) = map_option g (find (\<lambda>e. key e = k) xs)"
  using assms by (induction xs) auto

lemma find_key_None: "(find (\<lambda>e. fst e = k) m = None) = (k \<notin> fst ` set m)"
  by (force simp: find_None_iff image_iff)

lemma find_append:
  "find P (xs @ ys) = (case find P xs of None \<Rightarrow> find P ys | Some x \<Rightarrow> Some x)"
  by (induction xs) auto

lemma find_distinct_key:
  assumes "distinct (map key xs)" "x \<in> set xs"
  shows "find (\<lambda>e. key e = key x) xs = Some x"
  using assms by (induction xs) (auto simp: image_iff)

lemma itemOfRow_short: "itemOfRow row = [] \<or> (\<exists>x. itemOfRow row = [x])"
  by (simp add: itemOfRow_def split: option.splits)

lemma groupRows_step:
  "groupRows (row # rows) m =
     groupRows rows
       (map (\<lambda>e. if fst e = o_id (fst (fst row))
                 then (fst e, (fst (snd e), snd (snd e) @ itemOfRow row)) else e)
          (if o_id (fst (fst row)) \<in> fst ` set m then m
           else m @ [(o_id (fst (fst row)), (fst (fst row), []))]))"
proof -
  have "(case itemOfRow row of [] \<Rightarrow> m1 | x # _ \<Rightarrow> pushItem k x m1)
          = map (\<lambda>e. if fst e = k then (fst e, (fst (snd e), snd (snd e) @ itemOfRow row)) else e) m1"
    for k m1
  proof (cases "itemOfRow row")
    case Nil
    have "map (\<lambda>e. if fst e = k then (fst e, (fst (snd e), snd (snd e) @ itemOfRow row)) else e) m1 = m1"
      using Nil by (induction m1) auto
    then show ?thesis using Nil by simp
  next
    case (Cons x xs)
    then have "xs = []" using itemOfRow_short[of row] by simp
    then show ?thesis using Cons by (simp add: pushItem_def)
  qed
  then show ?thesis by (simp add: Let_def)
qed

lemma groupRows_find:
  "find (\<lambda>e. fst e = k) (groupRows rows m) =
     (case find (\<lambda>e. fst e = k) m of
        Some e \<Rightarrow>
          Some (fst e, (fst (snd e),
                        snd (snd e) @ concat (map itemOfRow (filter (\<lambda>r. o_id (fst (fst r)) = k) rows))))
      | None \<Rightarrow>
          (case filter (\<lambda>r. o_id (fst (fst r)) = k) rows of
             [] \<Rightarrow> None
           | r # _ \<Rightarrow>
               Some (k, (fst (fst r), concat (map itemOfRow (filter (\<lambda>r. o_id (fst (fst r)) = k) rows))))))"
proof (induction rows arbitrary: m)
  case Nil
  show ?case by (cases "find (\<lambda>e. fst e = k) m") simp_all
next
  case (Cons row rows)
  let ?k0 = "o_id (fst (fst row))"
  let ?m1 = "if ?k0 \<in> fst ` set m then m else m @ [(?k0, (fst (fst row), []))]"
  let ?g = "\<lambda>e. if fst e = ?k0 then (fst e, (fst (snd e), snd (snd e) @ itemOfRow row)) else e"
  let ?m2 = "map ?g ?m1"
  have m2: "find (\<lambda>e. fst e = k) ?m2 = map_option ?g (find (\<lambda>e. fst e = k) ?m1)"
    by (rule find_map_key) simp
  have step: "groupRows (row # rows) m = groupRows rows ?m2"
    by (rule groupRows_step)
  show ?case
  proof (cases "find (\<lambda>e. fst e = k) m")
    case None
    then have notin: "k \<notin> fst ` set m" by (simp add: find_key_None)
    show ?thesis
    proof (cases "k = ?k0")
      case True
      then have flt: "filter (\<lambda>r. o_id (fst (fst r)) = k) (row # rows)
          = row # filter (\<lambda>r. o_id (fst (fst r)) = k) rows"
        by simp
      from True have "find (\<lambda>e. fst e = k) ?m1 = Some (?k0, (fst (fst row), []))"
        using None notin by (simp add: find_append)
      then have "find (\<lambda>e. fst e = k) ?m2 = Some (?k0, (fst (fst row), itemOfRow row))"
        using m2 by simp
      then show ?thesis
        unfolding step Cons.IH[of ?m2] flt using None True by simp
    next
      case False
      then have flt: "filter (\<lambda>r. o_id (fst (fst r)) = k) (row # rows)
          = filter (\<lambda>r. o_id (fst (fst r)) = k) rows"
        by auto
      from False have "find (\<lambda>e. fst e = k) ?m1 = None"
        using None by (simp add: find_append)
      then have "find (\<lambda>e. fst e = k) ?m2 = None"
        using m2 by simp
      then show ?thesis
        unfolding step Cons.IH[of ?m2] flt using None False by simp
    qed
  next
    case (Some e)
    then have e: "fst e = k"
      by (auto simp: find_Some_iff)
    have m1: "find (\<lambda>e. fst e = k) ?m1 = Some e"
      using Some by (simp add: find_append)
    show ?thesis
    proof (cases "k = ?k0")
      case True
      then have flt: "filter (\<lambda>r. o_id (fst (fst r)) = k) (row # rows)
          = row # filter (\<lambda>r. o_id (fst (fst r)) = k) rows"
        by simp
      from True have "find (\<lambda>e. fst e = k) ?m2 = Some (fst e, (fst (snd e), snd (snd e) @ itemOfRow row))"
        using m2 m1 e by simp
      then show ?thesis
        unfolding step Cons.IH[of ?m2] flt using Some True by simp
    next
      case False
      then have flt: "filter (\<lambda>r. o_id (fst (fst r)) = k) (row # rows)
          = filter (\<lambda>r. o_id (fst (fst r)) = k) rows"
        by auto
      from False have "find (\<lambda>e. fst e = k) ?m2 = Some e"
        using m2 m1 e by simp
      then show ?thesis
        unfolding step Cons.IH[of ?m2] flt using Some False by simp
    qed
  qed
qed

lemma groupRows_keys:
  "distinct (map fst m) \<Longrightarrow> distinct (map fst (groupRows rows m))"
proof (induction rows arbitrary: m)
  case Nil
  then show ?case by simp
next
  case (Cons row rows)
  let ?k0 = "o_id (fst (fst row))"
  let ?m1 = "if ?k0 \<in> fst ` set m then m else m @ [(?k0, (fst (fst row), []))]"
  let ?g = "\<lambda>e. if fst e = ?k0 then (fst e, (fst (snd e), snd (snd e) @ itemOfRow row)) else e"
  have keep: "map fst (map ?g xs) = map fst xs" for xs
    by (induction xs) auto
  have "distinct (map fst ?m1)"
    using Cons.prems by auto
  then have "distinct (map fst (map ?g ?m1))"
    by (simp only: keep)
  then show ?case
    unfolding groupRows_step by (rule Cons.IH)
qed


lemma orderRows_of_order:
  assumes "distinct (map o_id (orders st))"
    and "find (\<lambda>order. o_id order = k) (orders st) = Some order"
  shows "\<exists>row rest. filter (\<lambda>row. o_id (fst (fst row)) = k) (orderRows st) = row # rest"
    and "\<forall>row \<in> set (filter (\<lambda>row. o_id (fst (fst row)) = k) (orderRows st)). fst (fst row) = order"
    and "concat (map itemOfRow (filter (\<lambda>row. o_id (fst (fst row)) = k) (orderRows st))) = joinedItems st k"
proof -
  have one: "filter (\<lambda>order. o_id order = k) (orders st) = [order]"
    using distinct_filter_key[OF assms(1), of k] assms(2) by simp
  then have "order \<in> set (filter (\<lambda>order. o_id order = k) (orders st))"
    by simp
  then have key: "o_id order = k"
    by simp
  let ?rows = "filter (\<lambda>row. o_id (fst (fst row)) = k) (orderRows st)"
  have rows: "?rows = leftJoin (leftJoin [order] (orderItems st) (\<lambda>order i. oi_orderId i = Some (o_id order)))
         (products st)
         (\<lambda>row p. case snd row of None \<Rightarrow> False | Some i \<Rightarrow> oi_productId i = Some (p_id p))"
    using orderRows_filter[of "\<lambda>order. o_id order = k" st] one by simp
  have "?rows \<noteq> []"
    unfolding rows by (simp add: leftJoin_empty_iff)
  then show "\<exists>row rest. ?rows = row # rest"
    by (cases ?rows) auto
  show "\<forall>row \<in> set ?rows. fst (fst row) = order"
  proof
    fix row assume "row \<in> set ?rows"
    then have "fst row \<in> set (leftJoin [order] (orderItems st) (\<lambda>order i. oi_orderId i = Some (o_id order)))"
      unfolding rows by (rule leftJoin_fst)
    then have "fst (fst row) \<in> set [order]"
      by (rule leftJoin_fst)
    then show "fst (fst row) = order" by simp
  qed
  show "concat (map itemOfRow ?rows) = joinedItems st k"
    using orderRows_items[of "\<lambda>order. o_id order = k" st] one key by simp
qed

lemma orderRows_no_order:
  assumes "find (\<lambda>order. o_id order = k) (orders st) = None"
  shows "filter (\<lambda>row. o_id (fst (fst row)) = k) (orderRows st) = []"
proof -
  have "filter (\<lambda>order. o_id order = k) (orders st) = []"
    using assms by (auto simp: find_None_iff filter_empty_conv)
  then show ?thesis
    using orderRows_filter[of "\<lambda>order. o_id order = k" st] by simp
qed

lemma sorted_same_key:
  "\<forall>x \<in> set xs. f x = c \<Longrightarrow> sorted (map f xs)"
  by (induction xs) auto

lemma sorted_rows_of_order:
  assumes "distinct (map o_id (orders st))"
  shows "filter (\<lambda>row. o_id (fst (fst row)) = k) (sort_key descCreatedAt (orderRows st))
           = filter (\<lambda>row. o_id (fst (fst row)) = k) (orderRows st)"
proof -
  let ?rows = "filter (\<lambda>row. o_id (fst (fst row)) = k) (orderRows st)"
  have "sorted (map descCreatedAt ?rows)"
  proof (cases "find (\<lambda>order. o_id order = k) (orders st)")
    case None
    then show ?thesis using orderRows_no_order[OF None] by simp
  next
    case (Some order)
    have "\<forall>row \<in> set ?rows. descCreatedAt row = map_option (\<lambda>t. - int t) (o_createdAt order)"
      using orderRows_of_order(2)[OF assms Some] by (simp add: descCreatedAt_def)
    then show ?thesis by (rule sorted_same_key)
  qed
  then have "sort_key descCreatedAt ?rows = ?rows"
    by (rule sort_key_id_if_sorted)
  then show ?thesis
    by (simp add: filter_sort)
qed

lemma getOrders_find:
  assumes "distinct (map o_id (orders st))"
  shows "find (\<lambda>e. fst e = k) (groupRows (sort_key descCreatedAt (orderRows st)) [])
           = map_option (\<lambda>order. (k, (order, joinedItems st k)))
               (find (\<lambda>order. o_id order = k) (orders st))"
proof (cases "find (\<lambda>order. o_id order = k) (orders st)")
  case None
  then show ?thesis
    by (simp add: groupRows_find sorted_rows_of_order[OF assms] orderRows_no_order[OF None])
next
  case (Some order)
  obtain row rest where split: "filter (\<lambda>row. o_id (fst (fst row)) = k) (orderRows st) = row # rest"
    using orderRows_of_order(1)[OF assms Some] by (elim exE)
  have "row \<in> set (filter (\<lambda>row. o_id (fst (fst row)) = k) (orderRows st))"
    unfolding split by simp
  then have first: "fst (fst row) = order"
    using orderRows_of_order(2)[OF assms Some] by (elim ballE) auto
  have items: "concat (map itemOfRow (row # rest)) = joinedItems st k"
    using orderRows_of_order(3)[OF assms Some] unfolding split .
  show ?thesis
    unfolding groupRows_find sorted_rows_of_order[OF assms] split
    using Some first items by simp
qed

lemma getOrders_joined:
  assumes "distinct (map o_id (orders st))"
  shows "set (getOrders st) = (\<lambda>order. (order, joinedItems st (o_id order))) ` set (orders st)"
    and "distinct (map (\<lambda>r. o_id (fst r)) (getOrders st))"
proof -
  let ?G = "groupRows (sort_key descCreatedAt (orderRows st)) []"
  have dG: "distinct (map fst ?G)"
    by (rule groupRows_keys) simp
  have look: "find (\<lambda>e. fst e = k) ?G
           = map_option (\<lambda>order. (k, (order, joinedItems st k)))
               (find (\<lambda>order. o_id order = k) (orders st))" for k
    by (rule getOrders_find[OF assms])
  have sub: "e \<in> set ?G \<Longrightarrow> \<exists>order \<in> set (orders st). e = (o_id order, (order, joinedItems st (o_id order)))" for e
  proof -
    assume "e \<in> set ?G"
    then have "find (\<lambda>e'. fst e' = fst e) ?G = Some e"
      by (rule find_distinct_key[OF dG])
    then obtain order where o: "find (\<lambda>order. o_id order = fst e) (orders st) = Some order"
      "e = (fst e, (order, joinedItems st (fst e)))"
      unfolding look by (cases "find (\<lambda>order. o_id order = fst e) (orders st)") auto
    have "order \<in> set (orders st)" "o_id order = fst e"
      using o(1) by (auto simp: find_Some_iff)
    then show ?thesis using o(2) by (intro bexI[of _ order]) simp_all
  qed
  have sup: "order \<in> set (orders st) \<Longrightarrow> (o_id order, (order, joinedItems st (o_id order))) \<in> set ?G" for order
  proof -
    assume "order \<in> set (orders st)"
    then have "find (\<lambda>x. o_id x = o_id order) (orders st) = Some order"
      by (rule find_distinct_key[OF assms])
    then have "find (\<lambda>e. fst e = o_id order) ?G = Some (o_id order, (order, joinedItems st (o_id order)))"
      unfolding look by simp
    then show ?thesis
      by (auto simp: find_Some_iff in_set_conv_nth)
  qed
  have "set ?G = (\<lambda>order. (o_id order, (order, joinedItems st (o_id order)))) ` set (orders st)"
  proof (rule set_eqI, rule iffI)
    fix e assume "e \<in> set ?G"
    then have "\<exists>order \<in> set (orders st). e = (o_id order, (order, joinedItems st (o_id order)))"
      by (rule sub)
    then obtain order where "order \<in> set (orders st)"
      "e = (o_id order, (order, joinedItems st (o_id order)))"
      by (elim bexE)
    then show "e \<in> (\<lambda>order. (o_id order, (order, joinedItems st (o_id order)))) ` set (orders st)"
      by (rule image_eqI[rotated])
  next
    fix e assume "e \<in> (\<lambda>order. (o_id order, (order, joinedItems st (o_id order)))) ` set (orders st)"
    then obtain order where "order \<in> set (orders st)"
      "e = (o_id order, (order, joinedItems st (o_id order)))"
      by (elim imageE)
    then show "e \<in> set ?G" using sup[of order] by simp
  qed
  then have "snd ` set ?G = (\<lambda>order. (order, joinedItems st (o_id order))) ` set (orders st)"
    by (simp add: image_image)
  then show "set (getOrders st) = (\<lambda>order. (order, joinedItems st (o_id order))) ` set (orders st)"
    by (simp add: getOrders_def)
  have eq: "map (\<lambda>e. o_id (fst (snd e))) ?G = map fst ?G"
  proof (rule map_cong[OF refl])
    fix e assume "e \<in> set ?G"
    then show "o_id (fst (snd e)) = fst e"
      using sub[of e] by auto
  qed
  have keys: "map (\<lambda>r. o_id (fst r)) (getOrders st) = map fst ?G"
    unfolding getOrders_def map_map comp_def by (rule eq)
  show "distinct (map (\<lambda>r. o_id (fst r)) (getOrders st))"
    unfolding keys by (rule dG)
qed


lemma joinedItems_catalog:
  assumes "distinct (map p_id (products st))"
  shows "map fst (joinedItems st i)
           = filter (\<lambda>item. \<exists>p \<in> set (products st). oi_productId item = Some (p_id p)) (orderItemsOf st i)"
proof -
  have one: "map fst (map (\<lambda>p. (item, p)) (filter (\<lambda>p. oi_productId item = Some (p_id p)) (products st)))
      = (if \<exists>p \<in> set (products st). oi_productId item = Some (p_id p) then [item] else [])" for item
  proof (cases "filter (\<lambda>p. oi_productId item = Some (p_id p)) (products st)")
    case Nil
    then show ?thesis by (auto simp: filter_empty_conv)
  next
    case (Cons p ps)
    then have "ps = []"
      using distinct_key_filter[OF assms, of "oi_productId item"] by simp
    have "p \<in> set (filter (\<lambda>p. oi_productId item = Some (p_id p)) (products st))"
      using Cons by simp
    then have "p \<in> set (products st) \<and> oi_productId item = Some (p_id p)"
      by simp
    then have ex: "\<exists>p \<in> set (products st). oi_productId item = Some (p_id p)"
      by (intro bexI[of _ p]) simp_all
    show ?thesis using Cons \<open>ps = []\<close> ex by simp
  qed
  have "map fst (concat (map (\<lambda>item. map (\<lambda>p. (item, p))
            (filter (\<lambda>p. oi_productId item = Some (p_id p)) (products st))) xs))
        = filter (\<lambda>item. \<exists>p \<in> set (products st). oi_productId item = Some (p_id p)) xs" for xs
  proof (induction xs)
    case Nil
    show ?case by simp
  next
    case (Cons x xs)
    show ?case
      using Cons one[of x] by (simp del: map_map)
  qed
  then show ?thesis by (simp add: joinedItems_def)
qed

subsection \<open>Items whose product is not in the catalog\<close>

text \<open>
  Claim C8 says that an order read returns every item of an order, also when the
  item's product is missing from the catalog. It does not: order 1 of \<open>archive\<close> has three
  items, of which the second names product 2, which the catalog no longer has, and the
  third names no product; \<open>getOrder\<close> and \<open>getOrders\<close> return the first item only.
\<close>

theorem getOrder_drops_counterexample:
  "orderItemsOf archive 1 = [itemRow 1 (Some 1) 1 2499, itemRow 2 (Some 2) 2 2299, itemRow 3 None 1 400]
   \<and> getProduct archive 2 = None
   \<and> getOrder archive 1 = Some (headerOf 7497, [(itemRow 1 (Some 1) 1 2499, sidamo)])
   \<and> getOrders archive = [(headerOf 7497, [(itemRow 1 (Some 1) 1 2499, sidamo)])]"
  by (simp add: archive_def orderItemsOf_def itemRow_def headerOf_def sidamo_def getProduct_def
      getOrder_def getOrders_def orderRows_def leftJoin_def itemOfRow_def pushItem_def Let_def)

text \<open>
  Claim C8, amended. With unique order and product keys, \<open>getOrder\<close> returns the order
  with the given key, if there is one, and \<open>getOrders\<close> returns every order once, each
  with exactly those of its order items whose product key is the key of a product of
  the catalog, in the order of the table and paired with that product. An item whose
  product is not in the catalog is left out of the result.
\<close>

theorem getOrder_returns_catalog_items:
  assumes "distinct (map o_id (orders st))"
    and "distinct (map p_id (products st))"
  shows "getOrder st i
           = map_option (\<lambda>order. (order, joinedItems st i)) (find (\<lambda>order. o_id order = i) (orders st))
    \<and> set (getOrders st) = (\<lambda>order. (order, joinedItems st (o_id order))) ` set (orders st)
    \<and> distinct (map (\<lambda>r. o_id (fst r)) (getOrders st))
    \<and> map fst (joinedItems st i)
        = filter (\<lambda>item. \<exists>p \<in> set (products st). oi_productId item = Some (p_id p)) (orderItemsOf st i)"
  using getOrder_joined[OF assms(1), of i] getOrders_joined[OF assms(1)] joinedItems_catalog[OF assms(2), of i]
  by (intro conjI)

theorem getOrder_returns_catalog_items_witness:
  "distinct (map o_id (orders archive)) \<and> distinct (map p_id (products archive))
   \<and> getOrder archive 1 = Some (headerOf 7497, joinedItems archive 1)
   \<and> set (getOrders archive) = {(headerOf 7497, joinedItems archive 1)}
   \<and> map fst (joinedItems archive 1) = [itemRow 1 (Some 1) 1 2499]"
proof -
  have h1: "distinct (map o_id (orders archive))"
    by (simp add: archive_def)
  have h2: "distinct (map p_id (products archive))"
    by (simp add: archive_def)
  have header: "find (\<lambda>order. o_id order = 1) (orders archive) = Some (headerOf 7497)"
    "orders archive = [headerOf 7497]" "o_id (headerOf 7497) = 1"
    by (simp_all add: archive_def headerOf_def)
  have kept: "filter (\<lambda>item. \<exists>p \<in> set (products archive). oi_productId item = Some (p_id p))
                (orderItemsOf archive 1) = [itemRow 1 (Some 1) 1 2499]"
    by (simp add: archive_def orderItemsOf_def itemRow_def sidamo_def)
  show ?thesis
    using h1 h2 getOrder_returns_catalog_items[OF h1 h2, of 1] header kept by simp
qed


lemma leftJoin_map_right:
  assumes "\<And>l r. on l (g r) = on l r"
  shows "leftJoin ls (map g rs) on = map (\<lambda>row. (fst row, map_option g (snd row))) (leftJoin ls rs on)"
proof (induction ls)
  case Nil
  show ?case by simp
next
  case (Cons l ls)
  have "filter (on l) (map g rs) = map g (filter (on l) rs)"
    by (rule filter_map_same) (rule assms)
  then show ?case
    using Cons by (cases "filter (on l) rs") (simp_all add: leftJoin_Cons)
qed

lemma insort_key_map_same:
  assumes "\<And>x. f (h x) = f x"
  shows "insort_key f (h x) (map h xs) = map h (insort_key f x xs)"
  using assms by (induction xs) auto

lemma sort_key_map_same:
  assumes "\<And>x. f (h x) = f x"
  shows "sort_key f (map h xs) = map h (sort_key f xs)"
  using assms by (induction xs) (simp_all add: insort_key_map_same)

lemma itemOfRow_map:
  "itemOfRow (fst row, map_option g (snd row)) = map (\<lambda>x. (fst x, g (snd x))) (itemOfRow row)"
  by (simp add: itemOfRow_def split: option.splits)

lemma groupRows_map:
  "groupRows (map (\<lambda>row. (fst row, map_option g (snd row))) rows)
     (map (\<lambda>e. (fst e, (fst (snd e), map (\<lambda>x. (fst x, g (snd x))) (snd (snd e))))) m)
   = map (\<lambda>e. (fst e, (fst (snd e), map (\<lambda>x. (fst x, g (snd x))) (snd (snd e)))))
       (groupRows rows m)"
proof (induction rows arbitrary: m)
  case Nil
  show ?case by simp
next
  case (Cons row rows)
  let ?h = "\<lambda>row. (fst row, map_option g (snd row))"
  let ?H = "\<lambda>e. (fst e, (fst (snd e), map (\<lambda>x. (fst x, g (snd x))) (snd (snd e))))"
  let ?k0 = "o_id (fst (fst row))"
  let ?m1 = "if ?k0 \<in> fst ` set m then m else m @ [(?k0, (fst (fst row), []))]"
  let ?u = "\<lambda>e. if fst e = ?k0 then (fst e, (fst (snd e), snd (snd e) @ itemOfRow row)) else e"
  let ?u' = "\<lambda>e. if fst e = ?k0 then (fst e, (fst (snd e), snd (snd e) @ itemOfRow (?h row))) else e"
  have keys: "fst ` set (map ?H m) = fst ` set m"
    by (simp add: image_image)
  have m1: "(if ?k0 \<in> fst ` set (map ?H m) then map ?H m else map ?H m @ [(?k0, (fst (fst row), []))])
      = map ?H ?m1"
    unfolding keys by simp
  have upd: "map ?u' (map ?H xs) = map ?H (map ?u xs)" for xs
    by (induction xs) (simp_all add: itemOfRow_map)
  have "groupRows (map ?h (row # rows)) (map ?H m) = groupRows (?h row # map ?h rows) (map ?H m)"
    by (simp only: list.map)
  also have "\<dots> = groupRows (map ?h rows)
      (map ?u' (if ?k0 \<in> fst ` set (map ?H m) then map ?H m else map ?H m @ [(?k0, (fst (fst row), []))]))"
    using groupRows_step[of "?h row" "map ?h rows" "map ?H m"] by (simp only: fst_conv)
  also have "\<dots> = groupRows (map ?h rows) (map ?u' (map ?H ?m1))"
    by (simp only: m1)
  also have "\<dots> = groupRows (map ?h rows) (map ?H (map ?u ?m1))"
    by (simp only: upd)
  also have "\<dots> = map ?H (groupRows rows (map ?u ?m1))"
    by (rule Cons.IH)
  also have "\<dots> = map ?H (groupRows (row # rows) m)"
    by (simp only: groupRows_step)
  finally show ?case .
qed

lemma orderRows_products:
  assumes "\<And>p. p_id (g p) = p_id p"
  shows "orderRows (st\<lparr>products := map g (products st)\<rparr>)
           = map (\<lambda>row. (fst row, map_option g (snd row))) (orderRows st)"
  unfolding orderRows_def
  by (simp add: leftJoin_map_right assms split: option.splits)

lemma getOrder_products:
  assumes "\<And>p. p_id (g p) = p_id p"
  shows "getOrder (st\<lparr>products := map g (products st)\<rparr>) i
           = map_option (\<lambda>r. (fst r, map (\<lambda>x. (fst x, g (snd x))) (snd r))) (getOrder st i)"
proof -
  let ?h = "\<lambda>row. (fst row, map_option g (snd row))"
  have flt: "filter (\<lambda>row. o_id (fst (fst row)) = i) (map ?h (orderRows st))
      = map ?h (filter (\<lambda>row. o_id (fst (fst row)) = i) (orderRows st))"
    by (rule filter_map_same) simp
  have items: "concat (map itemOfRow (map ?h rows)) = map (\<lambda>x. (fst x, g (snd x))) (concat (map itemOfRow rows))"
    for rows
    by (induction rows) (simp_all add: itemOfRow_map)
  show ?thesis
    unfolding getOrder_def orderRows_products[OF assms] flt Let_def
    by (cases "filter (\<lambda>row. o_id (fst (fst row)) = i) (orderRows st)")
       (simp_all add: items itemOfRow_map del: map_map)
qed

lemma getOrders_products:
  assumes "\<And>p. p_id (g p) = p_id p"
  shows "getOrders (st\<lparr>products := map g (products st)\<rparr>)
           = map (\<lambda>r. (fst r, map (\<lambda>x. (fst x, g (snd x))) (snd r))) (getOrders st)"
proof -
  let ?h = "\<lambda>row. (fst row, map_option g (snd row))"
  have srt: "sort_key descCreatedAt (map ?h (orderRows st)) = map ?h (sort_key descCreatedAt (orderRows st))"
    by (rule sort_key_map_same) (simp add: descCreatedAt_def)
  have "groupRows (map ?h (sort_key descCreatedAt (orderRows st))) []
      = map (\<lambda>e. (fst e, (fst (snd e), map (\<lambda>x. (fst x, g (snd x))) (snd (snd e)))))
          (groupRows (sort_key descCreatedAt (orderRows st)) [])"
    using groupRows_map[of g "sort_key descCreatedAt (orderRows st)" "[]"] by simp
  then show ?thesis
    unfolding getOrders_def orderRows_products[OF assms] srt
    by (simp add: comp_def)
qed

lemma applyPatch_id: "p_id (if p_id p = i then applyPatch pt now p else p) = p_id p"
  by (simp add: applyPatch_def)

subsection \<open>Updating a product\<close>

text \<open>
  Claim C6. \<open>updateProduct\<close>, whatever the key and the patch, leaves the tables of
  orders and of order items as they are, so every total and every item price is the
  one of before; and what \<open>getOrder\<close> and \<open>getOrders\<close> return of an order, the header
  and its items, is the same before and after the update.
\<close>

theorem updateProduct_keeps_orders:
  "orders (fst (updateProduct st i pt now)) = orders st
   \<and> orderItems (fst (updateProduct st i pt now)) = orderItems st
   \<and> map_option orderView (getOrder (fst (updateProduct st i pt now)) k)
       = map_option orderView (getOrder st k)
   \<and> map orderView (getOrders (fst (updateProduct st i pt now))) = map orderView (getOrders st)"
proof -
  let ?g = "\<lambda>p. if p_id p = i then applyPatch pt now p else p"
  have st': "fst (updateProduct st i pt now) = st\<lparr>products := map ?g (products st)\<rparr>"
    by (simp add: updateProduct_def Let_def)
  have one: "getOrder (st\<lparr>products := map ?g (products st)\<rparr>) k
           = map_option (\<lambda>r. (fst r, map (\<lambda>x. (fst x, ?g (snd x))) (snd r))) (getOrder st k)"
    by (rule getOrder_products) (rule applyPatch_id)
  have all: "getOrders (st\<lparr>products := map ?g (products st)\<rparr>)
           = map (\<lambda>r. (fst r, map (\<lambda>x. (fst x, ?g (snd x))) (snd r))) (getOrders st)"
    by (rule getOrders_products) (rule applyPatch_id)
  have view: "orderView (fst r, map (\<lambda>x. (fst x, ?g (snd x))) (snd r)) = orderView r" for r
    by (simp add: orderView_def comp_def)
  show ?thesis
    unfolding st' one all
    by (simp add: option.map_comp comp_def view)
qed


theorem updateProduct_keeps_orders_witness:
  "map_option p_price (snd (updateProduct soldShop 1 priceRise 8)) = Some 2999
   \<and> orders (fst (updateProduct soldShop 1 priceRise 8)) = [headerOf 7497]
   \<and> orderItems (fst (updateProduct soldShop 1 priceRise 8)) = [itemRow 1 (Some 1) 3 2499]
   \<and> map_option orderView (getOrder (fst (updateProduct soldShop 1 priceRise 8)) 1)
       = Some (headerOf 7497, [itemRow 1 (Some 1) 3 2499])"
proof -
  have price: "map_option p_price (snd (updateProduct soldShop 1 priceRise 8)) = Some 2999"
    by (simp add: updateProduct_def applyPatch_def soldShop_def priceRise_def sidamo_def supremo_def)
  have tables: "orders soldShop = [headerOf 7497]" "orderItems soldShop = [itemRow 1 (Some 1) 3 2499]"
    by (simp_all add: soldShop_def)
  have before: "map_option orderView (getOrder soldShop 1) = Some (headerOf 7497, [itemRow 1 (Some 1) 3 2499])"
    by (simp add: getOrder_def orderRows_def leftJoin_def itemOfRow_def orderView_def soldShop_def
        headerOf_def itemRow_def sidamo_def supremo_def)
  show ?thesis
    using price tables before updateProduct_keeps_orders[of soldShop 1 priceRise 8 1] by simp
qed

section \<open>Order keys in the states the handlers reach\<close>

text \<open>
  The theorems on the sum of an order and on order reads assume that the new order's key
  is carried by no order item yet, and that order keys are unique. Both follow from
  \<open>keysBelowSeq\<close>, which holds in the empty shop and is kept by every operation.
\<close>

lemma keysBelowSeq_fresh:
  assumes "keysBelowSeq st"
  shows "\<forall>i \<in> set (orderItems st). oi_orderId i \<noteq> Some (orders_seq st)"
proof
  fix i assume "i \<in> set (orderItems st)"
  then have "\<forall>k. oi_orderId i = Some k \<longrightarrow> k < orders_seq st"
    using assms by (simp add: keysBelowSeq_def)
  then show "oi_orderId i \<noteq> Some (orders_seq st)"
    by auto
qed

lemma createOrder_seq:
  "orders_seq st \<le> orders_seq (fst (createOrder st d now))"
  by (simp add: createOrder_def Let_def split: option.splits)

lemma keysBelowSeq_createOrder:
  assumes "keysBelowSeq st"
  shows "keysBelowSeq (fst (createOrder st d now))"
proof -
  have items: "orderItems (fst (createOrder st d now)) = orderItems st"
    by (rule createOrder_frame(4))
  have below: "\<forall>i \<in> set (orderItems st). \<forall>k. oi_orderId i = Some k
      \<longrightarrow> k < orders_seq (fst (createOrder st d now))"
    using assms createOrder_seq[of st d now] by (fastforce simp: keysBelowSeq_def)
  have headers: "\<forall>order \<in> set (orders st). o_id order < orders_seq (fst (createOrder st d now))"
    using assms createOrder_seq[of st d now] by (fastforce simp: keysBelowSeq_def)
  have unique: "distinct (map o_id (orders st))" "\<forall>order \<in> set (orders st). o_id order < orders_seq st"
    using assms by (simp_all add: keysBelowSeq_def)
  show ?thesis
  proof (cases "snd (createOrder st d now)")
    case Throws
    then have "orders (fst (createOrder st d now)) = orders st"
      by (rule createOrder_Throws)
    then show ?thesis
      using items below headers unique(1) by (simp add: keysBelowSeq_def)
  next
    case (Returns order)
    have new: "orders (fst (createOrder st d now)) = orders st @ [order]" "o_id order = orders_seq st"
      "orders_seq (fst (createOrder st d now)) = Suc (orders_seq st)"
      using createOrder_Returns[OF Returns] by simp_all
    have "o_id order \<notin> o_id ` set (orders st)"
      using unique(2) new(2) by auto
    then show ?thesis
      using items below headers unique(1) new by (simp add: keysBelowSeq_def)
  qed
qed

lemma keysBelowSeq_createOrderItems:
  assumes "keysBelowSeq st" "oid \<in> o_id ` set (orders st)"
  shows "keysBelowSeq (fst (createOrderItems st oid items))"
proof -
  obtain rows where rows: "orderItems (fst (createOrderItems st oid items)) = orderItems st @ rows"
    "list_all2 (writtenFrom oid) (takeWhile (lineAccepted st) items) rows"
    using createOrderItems_written[OF assms(2), of items] by (elim exE conjE)
  have key: "oid < orders_seq st"
    using assms by (auto simp: keysBelowSeq_def)
  have "\<forall>i \<in> set rows. oi_orderId i = Some oid"
    using rows(2) by (auto simp: list_all2_conv_all_nth in_set_conv_nth writtenFrom_def)
  then have "\<forall>i \<in> set rows. \<forall>k. oi_orderId i = Some k \<longrightarrow> k < orders_seq st"
    using key by simp
  then show ?thesis
    using assms(1) rows(1) createOrderItems_frame[of st oid items]
    by (auto simp: keysBelowSeq_def)
qed

lemma keysBelowSeq_clearCart:
  "keysBelowSeq (clearCart st s) = keysBelowSeq st"
  by (simp add: keysBelowSeq_def clearCart_def)

lemma keysBelowSeq_placeOrder:
  assumes "keysBelowSeq st"
  shows "keysBelowSeq (fst (placeOrder st s body now))"
proof (cases rule: placeOrder_cases[where st=st and s=s and body=body and now=now])
  case invalid
  then show ?thesis using assms by simp
next
  case (refused d)
  then show ?thesis using keysBelowSeq_createOrder[OF assms, of d now] by simp
next
  case (noItems d order)
  then show ?thesis using keysBelowSeq_createOrder[OF assms, of d now] by simp
next
  case (itemFailed d order items e)
  have "o_id order \<in> o_id ` set (orders (fst (createOrder st d now)))"
    using createOrder_Returns[OF itemFailed(2)] by simp
  then show ?thesis
    using itemFailed(5) keysBelowSeq_createOrderItems[OF keysBelowSeq_createOrder[OF assms, of d now]]
    by simp
next
  case (committed d order items)
  have "o_id order \<in> o_id ` set (orders (fst (createOrder st d now)))"
    using createOrder_Returns[OF committed(2)] by simp
  then show ?thesis
    using committed(5) keysBelowSeq_createOrderItems[OF keysBelowSeq_createOrder[OF assms, of d now]]
    by (simp add: keysBelowSeq_clearCart)
qed

lemma keysBelowSeq_shop: "keysBelowSeq shop"
  by (simp add: keysBelowSeq_def shop_def)

lemma keysBelowSeq_cart:
  "keysBelowSeq (fst (addToCart st item now)) = keysBelowSeq st"
  "keysBelowSeq (fst (updateCartItem st i quantity)) = keysBelowSeq st"
  "keysBelowSeq (removeFromCart st i) = keysBelowSeq st"
  "keysBelowSeq (fst (updateProduct st i pt now)) = keysBelowSeq st"
  by (simp_all add: keysBelowSeq_def addToCart_def updateCartItem_def removeFromCart_def
      updateProduct_def Let_def split: list.splits)

lemma keysBelowSeq_distinct:
  "keysBelowSeq st \<Longrightarrow> distinct (map o_id (orders st))"
  by (simp add: keysBelowSeq_def)

end

